theory Spec2Isabelle
  imports Complex_Main "HOL-Library.Sublist" "HOL-Library.Log_Nat"
begin

text \<open>
  A model of the generation pipeline of the repository: the gateway service
  (\<^verbatim>\<open>services/geminiService.ts\<close>, of which the sources hold two versions, in
  \<^verbatim>\<open>src/unnamed/part_001\<close> and \<^verbatim>\<open>src/unnamed/part_002\<close>) and the orchestrator
  \<^verbatim>\<open>handleProcess\<close> of the application component (in \<^verbatim>\<open>src/types.ts\<close>, after the type
  declarations).
\<close>

section \<open>The JavaScript runtime the pipeline relies on\<close>

text \<open>
  JavaScript strings are modelled as \<^typ>\<open>string\<close>: sequences of code units below 256.
  The built-ins the services call are written out: \<^verbatim>\<open>String.prototype.includes\<close>,
  \<^verbatim>\<open>replace\<close> with a global literal pattern and the empty replacement,
  \<^verbatim>\<open>trim\<close>, \<^verbatim>\<open>split(',')[1]\<close>, \<^verbatim>\<open>JSON.parse\<close> and
  \<^verbatim>\<open>JSON.stringify\<close>.
\<close>

subsection \<open>Strings\<close>

fun str_includes :: "string \<Rightarrow> string \<Rightarrow> bool" where
  "str_includes [] sub = (sub = [])"
| "str_includes (c # cs) sub = (prefix sub (c # cs) \<or> str_includes cs sub)"

text \<open>\<^verbatim>\<open>s.replace(/pat/g, '')\<close> for a literal, non-empty pattern: every match, scanning
  from the left, is dropped.\<close>

function remove_all :: "string \<Rightarrow> string \<Rightarrow> string" where
  "remove_all pat [] = []"
| "remove_all pat (c # cs) =
     (if pat \<noteq> [] \<and> prefix pat (c # cs)
      then remove_all pat (drop (length pat) (c # cs))
      else c # remove_all pat cs)"
  by pat_completeness auto
termination
  by (relation "measure (\<lambda>(pat, s). length s)") auto

text \<open>White space and line terminators of ECMAScript (the class \<^verbatim>\<open>\s\<close>, and what
  \<^verbatim>\<open>trim\<close> strips), as far as they lie below 256.\<close>

definition js_space :: "char \<Rightarrow> bool" where
  "js_space c \<longleftrightarrow> c \<in> set [CHR 0x09, CHR 0x0A, CHR 0x0B, CHR 0x0C, CHR 0x0D, CHR 0x20, CHR 0xA0]"

definition trim :: "string \<Rightarrow> string" where
  "trim s = rev (dropWhile js_space (rev (dropWhile js_space s)))"

text \<open>\<^verbatim>\<open>s.split(',')[1]\<close>: the text between the first and the second comma;
  \<^verbatim>\<open>undefined\<close> when there is no comma.\<close>

definition split_comma_1 :: "string \<Rightarrow> string option" where
  "split_comma_1 s =
     (case dropWhile (\<lambda>c. c \<noteq> CHR '','') s of
        [] \<Rightarrow> None
      | _ # rest \<Rightarrow> Some (takeWhile (\<lambda>c. c \<noteq> CHR '','') rest))"

text \<open>Decimal text of a natural number, as a template literal prints it.\<close>

definition digit_char :: "nat \<Rightarrow> char" where
  "digit_char d = char_of (of_char CHR ''0'' + d)"

fun show_nat :: "nat \<Rightarrow> string" where
  "show_nat n = (if n < 10 then [digit_char n] else show_nat (n div 10) @ [digit_char (n mod 10)])"

declare show_nat.simps [simp del]

subsection \<open>Numbers\<close>

text \<open>
  A JavaScript number is an IEEE 754 binary64 value, and \<^verbatim>\<open>/\<close>, \<^verbatim>\<open>*\<close> and \<^verbatim>\<open>+\<close> return
  the exact result rounded to the nearest such value, ties to the even significand. A finite
  number is modelled by the rational it denotes; \<open>double\<close> is the rounding to 53 significant
  bits. The exponent is not bounded here: \<open>double\<close> is the rounding of the runtime for every
  value of magnitude from \<open>2\<^sup>-\<^sup>1\<^sup>0\<^sup>2\<^sup>2\<close> up to the largest finite number, and for zero, which
  covers every value computed below (quotients \<open>i / T\<close> of array indices and lengths, which are
  below \<open>2\<^sup>3\<^sup>2\<close>, and numbers up to 80).
\<close>

text \<open>Rounding to the nearest integer, ties to even.\<close>

definition rne :: "rat \<Rightarrow> int" where
  "rne x =
     (let f = \<lfloor>x\<rfloor>; d = x - of_int f in
        if d < 1 / 2 then f
        else if 1 / 2 < d then f + 1
        else if even f then f else f + 1)"

text \<open>For positive \<open>x\<close>, the \<open>e\<close> with \<open>2\<^sup>e \<le> x < 2\<^sup>e\<^sup>+\<^sup>1\<close>.\<close>

definition exponent :: "rat \<Rightarrow> int" where
  "exponent x =
     (let k = bitlen (fst (quotient_of x)) - bitlen (snd (quotient_of x)) in
        if 2 powi k \<le> x then k else k - 1)"

definition double :: "rat \<Rightarrow> rat" where
  "double x =
     (if x = 0 then 0
      else let u = 2 powi (exponent \<bar>x\<bar> - 52) in sgn x * of_int (rne (\<bar>x\<bar> / u)) * u)"

subsection \<open>JSON values\<close>

text \<open>
  A number keeps its lexeme: the double it denotes is not computed here. What the runtime
  prints for that double (\<^verbatim>\<open>String(Number(lexeme))\<close>, for instance \<^verbatim>\<open>1\<close> for
  \<^verbatim>\<open>1.0\<close>, \<^verbatim>\<open>0\<close> for \<^verbatim>\<open>-0\<close> and \<^verbatim>\<open>Infinity\<close> for \<^verbatim>\<open>1e999\<close>) is the
  parameter \<open>num\<close> of the functions below that need it.
  An object holds its own properties in the order the runtime enumerates them: array-index
  keys first, ascending, then the other keys in the order of their first appearance; a
  repeated key keeps its place and takes the later value.
\<close>

datatype json =
    JNull
  | JBool bool
  | JNumber string
  | JString string
  | JArray "json list"
  | JObject "(string \<times> json) list"

datatype token =
    TLBrace | TRBrace | TLBrack | TRBrack | TColon | TComma
  | TString string | TNumber string | TTrue | TFalse | TNull

subsection \<open>\<^verbatim>\<open>JSON.parse\<close>: the lexer\<close>

datatype numstate = NMinus | NZero | NInt | NDot | NFrac | NE | NESign | NExp

datatype lstate =
    LStart
  | LWord string token
  | LNum numstate string
  | LStr string
  | LEsc string
  | LUni string string

definition is_digit :: "char \<Rightarrow> bool" where
  "is_digit c \<longleftrightarrow> c \<in> set ''0123456789''"

definition json_space :: "char \<Rightarrow> bool" where
  "json_space c \<longleftrightarrow> c \<in> set [CHR 0x20, CHR 0x09, CHR 0x0A, CHR 0x0D]"

definition hex_value :: "char \<Rightarrow> nat option" where
  "hex_value c =
     map_of (zip ''0123456789'' [0, 1, 2, 3, 4, 5, 6, 7, 8, 9] @
             zip ''abcdef'' [10, 11, 12, 13, 14, 15] @
             zip ''ABCDEF'' [10, 11, 12, 13, 14, 15]) c"

fun hex_number :: "nat \<Rightarrow> string \<Rightarrow> nat" where
  "hex_number acc [] = acc"
| "hex_number acc (c # cs) = hex_number (16 * acc + (case hex_value c of Some d \<Rightarrow> d | None \<Rightarrow> 0)) cs"

definition num_accepting :: "numstate \<Rightarrow> bool" where
  "num_accepting ns \<longleftrightarrow> ns \<in> set [NZero, NInt, NFrac, NExp]"

text \<open>The number grammar \<^verbatim>\<open>-? (0 | [1-9][0-9]*) (. [0-9]+)? ([eE] [+-]? [0-9]+)?\<close>.\<close>

fun num_next :: "numstate \<Rightarrow> char \<Rightarrow> numstate option" where
  "num_next NMinus c =
     (if c = CHR ''0'' then Some NZero else if is_digit c then Some NInt else None)"
| "num_next NZero c =
     (if c = CHR ''.'' then Some NDot else if c = CHR ''e'' \<or> c = CHR ''E'' then Some NE else None)"
| "num_next NInt c =
     (if is_digit c then Some NInt else if c = CHR ''.'' then Some NDot
      else if c = CHR ''e'' \<or> c = CHR ''E'' then Some NE else None)"
| "num_next NDot c = (if is_digit c then Some NFrac else None)"
| "num_next NFrac c =
     (if is_digit c then Some NFrac else if c = CHR ''e'' \<or> c = CHR ''E'' then Some NE else None)"
| "num_next NE c =
     (if c = CHR ''+'' \<or> c = CHR ''-'' then Some NESign else if is_digit c then Some NExp else None)"
| "num_next NESign c = (if is_digit c then Some NExp else None)"
| "num_next NExp c = (if is_digit c then Some NExp else None)"

definition start_step :: "char \<Rightarrow> (token list \<times> lstate) option" where
  "start_step c =
     (if json_space c then Some ([], LStart)
      else if c = CHR ''{'' then Some ([TLBrace], LStart)
      else if c = CHR ''}'' then Some ([TRBrace], LStart)
      else if c = CHR ''['' then Some ([TLBrack], LStart)
      else if c = CHR '']'' then Some ([TRBrack], LStart)
      else if c = CHR '':'' then Some ([TColon], LStart)
      else if c = CHR '','' then Some ([TComma], LStart)
      else if c = CHR 0x22 then Some ([], LStr [])
      else if c = CHR ''-'' then Some ([], LNum NMinus [c])
      else if c = CHR ''0'' then Some ([], LNum NZero [c])
      else if is_digit c then Some ([], LNum NInt [c])
      else if c = CHR ''t'' then Some ([], LWord ''rue'' TTrue)
      else if c = CHR ''f'' then Some ([], LWord ''alse'' TFalse)
      else if c = CHR ''n'' then Some ([], LWord ''ull'' TNull)
      else None)"

definition escape_char :: "char \<Rightarrow> char option" where
  "escape_char c =
     (if c = CHR 0x22 \<or> c = CHR 0x5C \<or> c = CHR ''/'' then Some c
      else if c = CHR ''b'' then Some (CHR 0x08)
      else if c = CHR ''f'' then Some (CHR 0x0C)
      else if c = CHR ''n'' then Some (CHR 0x0A)
      else if c = CHR ''r'' then Some (CHR 0x0D)
      else if c = CHR ''t'' then Some (CHR 0x09)
      else None)"

text \<open>One character of input. A \<^verbatim>\<open>\uXXXX\<close> escape is decoded to the code unit
  \<open>XXXX\<close>, which the character type of this model holds exactly when it is below 256.\<close>

fun lex_step :: "lstate \<Rightarrow> char \<Rightarrow> (token list \<times> lstate) option" where
  "lex_step LStart c = start_step c"
| "lex_step (LWord [] t) c = None"
| "lex_step (LWord [e] t) c = (if c = e then Some ([t], LStart) else None)"
| "lex_step (LWord (e # es) t) c = (if c = e then Some ([], LWord es t) else None)"
| "lex_step (LNum ns acc) c =
     (case num_next ns c of
        Some ns' \<Rightarrow> Some ([], LNum ns' (acc @ [c]))
      | None \<Rightarrow>
          if num_accepting ns
          then (case start_step c of
                  None \<Rightarrow> None
                | Some (toks, st) \<Rightarrow> Some (TNumber acc # toks, st))
          else None)"
| "lex_step (LStr acc) c =
     (if c = CHR 0x22 then Some ([TString acc], LStart)
      else if c = CHR 0x5C then Some ([], LEsc acc)
      else if of_char c < (32::nat) then None
      else Some ([], LStr (acc @ [c])))"
| "lex_step (LEsc acc) c =
     (if c = CHR ''u'' then Some ([], LUni acc [])
      else (case escape_char c of
              None \<Rightarrow> None
            | Some d \<Rightarrow> Some ([], LStr (acc @ [d]))))"
| "lex_step (LUni acc hs) c =
     (case hex_value c of
        None \<Rightarrow> None
      | Some _ \<Rightarrow>
          if length hs = 3
          then Some ([], LStr (acc @ [char_of (hex_number 0 (hs @ [c]))]))
          else Some ([], LUni acc (hs @ [c])))"

fun lex :: "lstate \<Rightarrow> string \<Rightarrow> token list option" where
  "lex st [] =
     (case st of
        LStart \<Rightarrow> Some []
      | LNum ns acc \<Rightarrow> if num_accepting ns then Some [TNumber acc] else None
      | _ \<Rightarrow> None)"
| "lex st (c # cs) =
     (case lex_step st c of
        None \<Rightarrow> None
      | Some (toks, st') \<Rightarrow>
          (case lex st' cs of
             None \<Rightarrow> None
           | Some rest \<Rightarrow> Some (toks @ rest)))"

subsection \<open>\<^verbatim>\<open>JSON.parse\<close>: the parser\<close>

datatype frame =
    FArray "json list"
  | FObject "(string \<times> json) list" "string option"

datatype pmode = MValue | MValueOrEnd | MKeyOrEnd | MKey | MColon | MNext | MDone json

text \<open>Defining a property: a key already present keeps its position.\<close>

fun assign :: "string \<Rightarrow> json \<Rightarrow> (string \<times> json) list \<Rightarrow> (string \<times> json) list" where
  "assign k v [] = [(k, v)]"
| "assign k v (m # ms) = (if fst m = k then (k, v) # ms else m # assign k v ms)"

fun dec_number :: "int \<Rightarrow> string \<Rightarrow> int" where
  "dec_number acc [] = acc"
| "dec_number acc (c # cs) =
     dec_number (10 * acc + (case hex_value c of Some d \<Rightarrow> int d | None \<Rightarrow> 0)) cs"

text \<open>An array index is the canonical decimal text of an integer below \<open>2\<^sup>3\<^sup>2 - 1\<close>.\<close>

definition array_index :: "string \<Rightarrow> int option" where
  "array_index k =
     (if k = ''0'' then Some 0
      else if k \<noteq> [] \<and> list_all is_digit k \<and> hd k \<noteq> CHR ''0'' \<and> length k \<le> 10
              \<and> dec_number 0 k < 4294967295
      then Some (dec_number 0 k)
      else None)"

definition enumeration_order :: "(string \<times> json) list \<Rightarrow> (string \<times> json) list" where
  "enumeration_order ms =
     sort_key (\<lambda>m. case array_index (fst m) of Some i \<Rightarrow> i | None \<Rightarrow> 0)
       (filter (\<lambda>m. array_index (fst m) \<noteq> None) ms)
     @ filter (\<lambda>m. array_index (fst m) = None) ms"

text \<open>A finished value goes to the innermost open container, or ends the text.\<close>

fun put_value :: "json \<Rightarrow> frame list \<Rightarrow> (frame list \<times> pmode) option" where
  "put_value v [] = Some ([], MDone v)"
| "put_value v (FArray xs # fs) = Some (FArray (xs @ [v]) # fs, MNext)"
| "put_value v (FObject ms (Some k) # fs) = Some (FObject (assign k v ms) None # fs, MNext)"
| "put_value v (FObject ms None # fs) = None"

fun value_token :: "frame list \<Rightarrow> token \<Rightarrow> (frame list \<times> pmode) option" where
  "value_token fs (TString s) = put_value (JString s) fs"
| "value_token fs (TNumber n) = put_value (JNumber n) fs"
| "value_token fs TTrue = put_value (JBool True) fs"
| "value_token fs TFalse = put_value (JBool False) fs"
| "value_token fs TNull = put_value JNull fs"
| "value_token fs TLBrack = Some (FArray [] # fs, MValueOrEnd)"
| "value_token fs TLBrace = Some (FObject [] None # fs, MKeyOrEnd)"
| "value_token fs _ = None"

fun close_array :: "frame list \<Rightarrow> (frame list \<times> pmode) option" where
  "close_array (FArray xs # fs) = put_value (JArray xs) fs"
| "close_array _ = None"

fun close_object :: "frame list \<Rightarrow> (frame list \<times> pmode) option" where
  "close_object (FObject ms None # fs) = put_value (JObject (enumeration_order ms)) fs"
| "close_object _ = None"

fun key_token :: "frame list \<Rightarrow> token \<Rightarrow> (frame list \<times> pmode) option" where
  "key_token (FObject ms None # fs) (TString k) = Some (FObject ms (Some k) # fs, MColon)"
| "key_token _ _ = None"

fun parse_step :: "frame list \<times> pmode \<Rightarrow> token \<Rightarrow> (frame list \<times> pmode) option" where
  "parse_step (fs, MValue) t = value_token fs t"
| "parse_step (fs, MValueOrEnd) t = (if t = TRBrack then close_array fs else value_token fs t)"
| "parse_step (fs, MKeyOrEnd) t = (if t = TRBrace then close_object fs else key_token fs t)"
| "parse_step (fs, MKey) t = key_token fs t"
| "parse_step (fs, MColon) t = (if t = TColon then Some (fs, MValue) else None)"
| "parse_step (fs, MNext) t =
     (if t = TComma
      then (case fs of
              FArray _ # _ \<Rightarrow> Some (fs, MValue)
            | FObject _ _ # _ \<Rightarrow> Some (fs, MKey)
            | [] \<Rightarrow> None)
      else if t = TRBrack then close_array fs
      else if t = TRBrace then close_object fs
      else None)"
| "parse_step (fs, MDone v) t = None"

fun parse_tokens :: "frame list \<times> pmode \<Rightarrow> token list \<Rightarrow> (frame list \<times> pmode) option" where
  "parse_tokens st [] = Some st"
| "parse_tokens st (t # ts) =
     (case parse_step st t of
        None \<Rightarrow> None
      | Some st' \<Rightarrow> parse_tokens st' ts)"

text \<open>\<^verbatim>\<open>JSON.parse(text)\<close>; \<open>None\<close> is the \<^verbatim>\<open>SyntaxError\<close> it throws.\<close>

definition JSON_parse :: "string \<Rightarrow> json option" where
  "JSON_parse s =
     (case lex LStart s of
        None \<Rightarrow> None
      | Some toks \<Rightarrow>
          (case parse_tokens ([], MValue) toks of
             Some ([], MDone v) \<Rightarrow> Some v
           | _ \<Rightarrow> None))"

subsection \<open>\<^verbatim>\<open>JSON.stringify\<close>, string conversion, truthiness, property access\<close>

definition hex_digit :: "nat \<Rightarrow> char" where
  "hex_digit d = ''0123456789abcdef'' ! d"

definition quote_char :: "char \<Rightarrow> string" where
  "quote_char c =
     (if c = CHR 0x22 then [CHR 0x5C, CHR 0x22]
      else if c = CHR 0x5C then [CHR 0x5C, CHR 0x5C]
      else if c = CHR 0x08 then [CHR 0x5C, CHR ''b'']
      else if c = CHR 0x0C then [CHR 0x5C, CHR ''f'']
      else if c = CHR 0x0A then [CHR 0x5C, CHR ''n'']
      else if c = CHR 0x0D then [CHR 0x5C, CHR ''r'']
      else if c = CHR 0x09 then [CHR 0x5C, CHR ''t'']
      else if of_char c < (32::nat)
      then [CHR 0x5C, CHR ''u'', CHR ''0'', CHR ''0'',
            hex_digit (of_char c div 16), hex_digit (of_char c mod 16)]
      else [c])"

definition quote_string :: "string \<Rightarrow> string" where
  "quote_string s = [CHR 0x22] @ concat (map quote_char s) @ [CHR 0x22]"

text \<open>A number that overflowed to an infinity is serialised as \<^verbatim>\<open>null\<close>.\<close>

definition stringify_number :: "(string \<Rightarrow> string) \<Rightarrow> string \<Rightarrow> string" where
  "stringify_number num l =
     (let t = num l in if t = ''Infinity'' \<or> t = ''-Infinity'' then ''null'' else t)"

fun JSON_stringify :: "(string \<Rightarrow> string) \<Rightarrow> json \<Rightarrow> string"
  and stringify_elements :: "(string \<Rightarrow> string) \<Rightarrow> json list \<Rightarrow> string"
  and stringify_members :: "(string \<Rightarrow> string) \<Rightarrow> (string \<times> json) list \<Rightarrow> string"
where
  "JSON_stringify num JNull = ''null''"
| "JSON_stringify num (JBool b) = (if b then ''true'' else ''false'')"
| "JSON_stringify num (JNumber l) = stringify_number num l"
| "JSON_stringify num (JString s) = quote_string s"
| "JSON_stringify num (JArray xs) = ''['' @ stringify_elements num xs @ '']''"
| "JSON_stringify num (JObject ms) = ''{'' @ stringify_members num ms @ ''}''"
| "stringify_elements num [] = []"
| "stringify_elements num [x] = JSON_stringify num x"
| "stringify_elements num (x # y # ys) =
     JSON_stringify num x @ '','' @ stringify_elements num (y # ys)"
| "stringify_members num [] = []"
| "stringify_members num [(k, v)] = quote_string k @ '':'' @ JSON_stringify num v"
| "stringify_members num ((k, v) # m # ms) =
     quote_string k @ '':'' @ JSON_stringify num v @ '','' @ stringify_members num (m # ms)"

text \<open>\<^verbatim>\<open>String(v)\<close>, which a template literal applies; \<open>None\<close> is the \<^verbatim>\<open>TypeError\<close>
  thrown for an object that has a property \<^verbatim>\<open>toString\<close> of its own (a parsed value is never
  callable, and \<^verbatim>\<open>valueOf\<close> gives back the object). Inside an array's \<^verbatim>\<open>join\<close>,
  \<^verbatim>\<open>null\<close> prints as the empty string.\<close>

fun to_string :: "(string \<Rightarrow> string) \<Rightarrow> json \<Rightarrow> string option"
  and join_elements :: "(string \<Rightarrow> string) \<Rightarrow> json list \<Rightarrow> string option"
where
  "to_string num JNull = Some ''null''"
| "to_string num (JBool b) = Some (if b then ''true'' else ''false'')"
| "to_string num (JNumber l) = Some (num l)"
| "to_string num (JString s) = Some s"
| "to_string num (JArray xs) = join_elements num xs"
| "to_string num (JObject ms) =
     (if map_of ms ''toString'' = None then Some ''[object Object]'' else None)"
| "join_elements num [] = Some []"
| "join_elements num [x] = (if x = JNull then Some [] else to_string num x)"
| "join_elements num (x # y # ys) =
     (case (if x = JNull then Some [] else to_string num x) of
        None \<Rightarrow> None
      | Some t \<Rightarrow>
          (case join_elements num (y # ys) of
             None \<Rightarrow> None
           | Some r \<Rightarrow> Some (t @ '','' @ r)))"

fun truthy :: "(string \<Rightarrow> string) \<Rightarrow> json \<Rightarrow> bool" where
  "truthy num JNull = False"
| "truthy num (JBool b) = b"
| "truthy num (JNumber l) = (num l \<noteq> ''0'')"
| "truthy num (JString s) = (s \<noteq> [])"
| "truthy num (JArray xs) = True"
| "truthy num (JObject ms) = True"

text \<open>\<^verbatim>\<open>v.valid\<close> and \<^verbatim>\<open>v.reason\<close> on a parsed value: \<open>Inl ()\<close> is the
  \<^verbatim>\<open>TypeError\<close> of reading a property of \<^verbatim>\<open>null\<close>, \<open>Inr None\<close> is
  \<^verbatim>\<open>undefined\<close>. Only an object has a property of either name.\<close>

fun get_property :: "json \<Rightarrow> string \<Rightarrow> unit + json option" where
  "get_property JNull k = Inl ()"
| "get_property (JObject ms) k = Inr (map_of ms k)"
| "get_property _ k = Inr None"

text \<open>\<^verbatim>\<open>s || d\<close> for an optional string: absent and empty are both falsy.\<close>

fun or_else :: "string option \<Rightarrow> string \<Rightarrow> string" where
  "or_else None d = d"
| "or_else (Some s) d = (if s = [] then d else s)"


section \<open>The model gateway\<close>

text \<open>
  A thrown value is seen by the program through two readings only: \<^verbatim>\<open>error?.message || ''\<close>
  and \<^verbatim>\<open>JSON.stringify(error)\<close>. It is modelled by these two strings.
\<close>

record js_error =
  err_message :: string
  err_json :: string

text \<open>\<^verbatim>\<open>new Error(msg)\<close>: the message is not an enumerable property, so the object
  serialises to \<^verbatim>\<open>{}\<close>.\<close>

definition Error :: "string \<Rightarrow> js_error" where
  "Error msg = \<lparr>err_message = msg, err_json = ''{}''\<rparr>"

text \<open>Of a \<^verbatim>\<open>GenerateContentResponse\<close> the services read \<^verbatim>\<open>response.text\<close> and the
  parts of the first candidate (\<^verbatim>\<open>response.candidates?.[0]?.content?.parts || []\<close>); of a
  part, whether it has \<^verbatim>\<open>inlineData\<close> and that object's \<^verbatim>\<open>data\<close>.\<close>

record inline_data =
  data :: "string option"

record response_part =
  inlineData :: "inline_data option"

record response =
  rtext :: "string option"
  parts :: "response_part list"

text \<open>The fixed instruction texts are named, with the values interpolated into them as
  arguments; a page prompt also carries the sentence appended to it for the tier.\<close>

datatype prompt =
    TranscribePrompt
  | SolvePrompt string
  | PagePrompt string string
  | ValidatePrompt
  | ValidatePrompt2

datatype part = Text prompt | InlineData string "string option"

record config =
  responseMimeType :: "string option"
  thinkingBudget :: "nat option"
  imageSize :: "string option"
  aspectRatio :: "string option"

definition no_config :: config where
  "no_config = \<lparr>responseMimeType = None, thinkingBudget = None, imageSize = None, aspectRatio = None\<rparr>"

record request =
  model :: string
  contents :: "part list"
  config :: config

datatype gw_result = Rejected js_error | Resolved response

text \<open>
  The environment of a run: the two places a credential can come from (\<open>process_env\<close> is
  \<open>None\<close> where \<^verbatim>\<open>process.env\<close> does not exist, else the value of its \<^verbatim>\<open>API_KEY\<close>),
  the outcome of the \<^verbatim>\<open>ai.models.generateContent\<close> call that is made when \<open>k\<close> requests
  have been sent before it, and the runtime's printing of numbers.
\<close>

record env =
  manualApiKey :: "string option"
  process_env :: "string option option"
  gateway :: "nat \<Rightarrow> gw_result"
  num :: "string \<Rightarrow> string"

text \<open>Every service function takes the list of requests sent so far and returns it
  extended, beside its result or the error it throws.\<close>

type_synonym 'a io = "request list \<Rightarrow> (js_error + 'a) \<times> request list"

definition generateContent :: "env \<Rightarrow> request \<Rightarrow> response io" where
  "generateContent e req calls =
     (case gateway e (length calls) of
        Rejected err \<Rightarrow> (Inl err, calls @ [req])
      | Resolved r \<Rightarrow> (Inr r, calls @ [req]))"

record File =
  ftype :: string
  base64 :: string

text \<open>\<^verbatim>\<open>fileToGenerativePart\<close>: the payload of the file's data URL. Reading a file
  that the user has selected is taken to succeed.\<close>

definition fileToGenerativePart :: "File \<Rightarrow> string" where
  "fileToGenerativePart f = base64 f"

section \<open>The service functions (first version of the gateway service)\<close>

text \<open>The functions of \<^verbatim>\<open>src/unnamed/part_001\<close>, from its line 24 on.\<close>

definition truthy_key :: "string option \<Rightarrow> bool" where
  "truthy_key k = (case k of None \<Rightarrow> False | Some s \<Rightarrow> s \<noteq> [])"

definition getAiClient :: "env \<Rightarrow> js_error + string" where
  "getAiClient e =
     (if truthy_key (manualApiKey e) then Inr (the (manualApiKey e))
      else (case process_env e of
              None \<Rightarrow> Inl (Error ''process is not defined'')
            | Some key \<Rightarrow>
                if \<not> truthy_key key
                then Inl (Error ''API Key not found. Please select a project or enter a key.'')
                else Inr (the key)))"

definition isPermissionError :: "js_error \<Rightarrow> bool" where
  "isPermissionError error =
     (let msg = err_message error; str = err_json error in
        str_includes msg ''403'' \<or>
        str_includes msg ''PERMISSION_DENIED'' \<or>
        str_includes msg ''The caller does not have permission'' \<or>
        str_includes str ''403'' \<or>
        str_includes str ''PERMISSION_DENIED'')"

definition strip_fences :: "string \<Rightarrow> string" where
  "strip_fences text = trim (remove_all ''```'' (remove_all ''```json'' text))"

text \<open>The result is the parsed array as it is: its elements are not checked to be strings.\<close>

definition parseSolutionResponse :: "(string \<Rightarrow> string) \<Rightarrow> response \<Rightarrow> json list" where
  "parseSolutionResponse nm response =
     (case JSON_parse (strip_fences (or_else (rtext response) ''[]'')) of
        None \<Rightarrow> [JString (or_else (rtext response) [])]
      | Some (JArray result) \<Rightarrow> result
      | Some result \<Rightarrow> [JString (JSON_stringify nm result)])"

text \<open>\<^verbatim>\<open>/#{1,6}\s?/g\<close>: up to six hashes and one white-space character after them.\<close>

definition after_hashes :: "string \<Rightarrow> string" where
  "after_hashes cs =
     (let rest = drop (length (takeWhile (\<lambda>c. c = CHR ''#'') (take 5 cs))) cs in
        case rest of
          [] \<Rightarrow> []
        | d # ds \<Rightarrow> if js_space d then ds else rest)"

function remove_headers :: "string \<Rightarrow> string" where
  "remove_headers [] = []"
| "remove_headers (c # cs) =
     (if c = CHR ''#'' then remove_headers (after_hashes cs) else c # remove_headers cs)"
  by pat_completeness auto
termination
  by (relation "measure length") (auto simp: after_hashes_def Let_def split: list.splits
        intro: le_imp_less_Suc dest: arg_cong [where f = length])

text \<open>Calling \<^verbatim>\<open>replace\<close> on a value that is not a string throws a \<^verbatim>\<open>TypeError\<close>
  (the message texts are V8's).\<close>

fun cleanTextForHandwriting :: "json \<Rightarrow> js_error + string" where
  "cleanTextForHandwriting (JString text) =
     Inr (trim (filter (\<lambda>c. c \<noteq> CHR ''['' \<and> c \<noteq> CHR '']'')
            (filter (\<lambda>c. c \<noteq> CHR 0x60)
              (remove_headers (remove_all ''*'' (remove_all ''**'' text))))))"
| "cleanTextForHandwriting JNull =
     Inl (Error ''Cannot read properties of null (reading 'replace')'')"
| "cleanTextForHandwriting _ = Inl (Error ''text.replace is not a function'')"

definition transcribeMathProblem :: "env \<Rightarrow> File \<Rightarrow> string io" where
  "transcribeMathProblem e imageFile calls =
     (case getAiClient e of
        Inl err \<Rightarrow> (Inl err, calls)
      | Inr ai \<Rightarrow>
          let base64Data = fileToGenerativePart imageFile in
          case generateContent e
                 \<lparr>model = ''gemini-2.5-flash'',
                  contents = [InlineData (ftype imageFile) (Some base64Data), Text TranscribePrompt],
                  config = no_config\<rparr> calls of
            (Inl err, calls') \<Rightarrow> (Inl err, calls')
          | (Inr response, calls') \<Rightarrow>
              (Inr (or_else (rtext response) ''Could not read problem.''), calls'))"

definition solve_primary :: "string \<Rightarrow> request" where
  "solve_primary problemText =
     \<lparr>model = ''gemini-3-pro-preview'',
      contents = [Text (SolvePrompt problemText)],
      config = no_config\<lparr>responseMimeType := Some ''application/json'',
                         thinkingBudget := Some 2048\<rparr>\<rparr>"

definition solve_fallback :: "string \<Rightarrow> request" where
  "solve_fallback problemText =
     \<lparr>model = ''gemini-2.5-flash'',
      contents = [Text (SolvePrompt problemText)],
      config = no_config\<lparr>responseMimeType := Some ''application/json'',
                         thinkingBudget := Some 1024\<rparr>\<rparr>"

definition solveMathProblem :: "env \<Rightarrow> string \<Rightarrow> json list io" where
  "solveMathProblem e problemText calls =
     (case getAiClient e of
        Inl err \<Rightarrow> (Inl err, calls)
      | Inr ai \<Rightarrow>
          case generateContent e (solve_primary problemText) calls of
            (Inr response, calls') \<Rightarrow> (Inr (parseSolutionResponse (num e) response), calls')
          | (Inl error, calls') \<Rightarrow>
              if isPermissionError error
              then (case generateContent e (solve_fallback problemText) calls' of
                      (Inl err, calls'') \<Rightarrow> (Inl err, calls'')
                    | (Inr response, calls'') \<Rightarrow>
                        (Inr (parseSolutionResponse (num e) response), calls''))
              else (Inl error, calls'))"

text \<open>\<^verbatim>\<open>extractImage\<close>: the first part with inline data; an absent \<^verbatim>\<open>data\<close>
  prints as \<^verbatim>\<open>undefined\<close>.\<close>

fun extractImage_parts :: "response_part list \<Rightarrow> js_error + string" where
  "extractImage_parts [] = Inl (Error ''No image generated in response'')"
| "extractImage_parts (p # ps) =
     (case inlineData p of
        Some d \<Rightarrow> Inr (''data:image/png;base64,'' @ (case data d of None \<Rightarrow> ''undefined'' | Some b \<Rightarrow> b))
      | None \<Rightarrow> extractImage_parts ps)"

definition extractImage :: "response \<Rightarrow> js_error + string" where
  "extractImage response = extractImage_parts (parts response)"

definition page_primary :: "File \<Rightarrow> string \<Rightarrow> string \<Rightarrow> request" where
  "page_primary referenceImageFile base64Ref cleanText =
     \<lparr>model = ''gemini-3-pro-image-preview'',
      contents = [Text (PagePrompt cleanText '' Ensure the image is high resolution (2K) and text is crisp.''),
                  InlineData (ftype referenceImageFile) (Some base64Ref)],
      config = no_config\<lparr>imageSize := Some ''2K'', aspectRatio := Some ''3:4''\<rparr>\<rparr>"

definition page_fallback :: "File \<Rightarrow> string \<Rightarrow> string \<Rightarrow> request" where
  "page_fallback referenceImageFile base64Ref cleanText =
     \<lparr>model = ''gemini-2.5-flash-image'',
      contents = [Text (PagePrompt cleanText []),
                  InlineData (ftype referenceImageFile) (Some base64Ref)],
      config = no_config\<lparr>aspectRatio := Some ''3:4''\<rparr>\<rparr>"

definition generateHandwrittenPage :: "env \<Rightarrow> File \<Rightarrow> json \<Rightarrow> nat \<Rightarrow> string io" where
  "generateHandwrittenPage e referenceImageFile textToWrite pageIndex calls =
     (case getAiClient e of
        Inl err \<Rightarrow> (Inl err, calls)
      | Inr ai \<Rightarrow>
          let base64Ref = fileToGenerativePart referenceImageFile in
          case cleanTextForHandwriting textToWrite of
            Inl err \<Rightarrow> (Inl err, calls)
          | Inr cleanText \<Rightarrow>
              (case generateContent e (page_primary referenceImageFile base64Ref cleanText) calls of
                 (Inr response, calls') \<Rightarrow>
                   (case extractImage response of
                      Inr url \<Rightarrow> (Inr url, calls')
                    | Inl error \<Rightarrow>
                        if isPermissionError error
                        then (case generateContent e
                                     (page_fallback referenceImageFile base64Ref cleanText) calls' of
                                (Inl err, calls'') \<Rightarrow> (Inl err, calls'')
                              | (Inr response', calls'') \<Rightarrow> (extractImage response', calls''))
                        else (Inl error, calls'))
               | (Inl error, calls') \<Rightarrow>
                   if isPermissionError error
                   then (case generateContent e
                                (page_fallback referenceImageFile base64Ref cleanText) calls' of
                           (Inl err, calls'') \<Rightarrow> (Inl err, calls'')
                         | (Inr response', calls'') \<Rightarrow> (extractImage response', calls''))
                   else (Inl error, calls')))"

record verdict =
  valid :: bool
  reason :: json

text \<open>What the body of the \<^verbatim>\<open>try\<close> in \<^verbatim>\<open>validateSolution\<close> does with a response;
  \<open>None\<close> when it throws (the text does not parse, or parses to \<^verbatim>\<open>null\<close>).\<close>

definition read_verdict :: "(string \<Rightarrow> string) \<Rightarrow> response \<Rightarrow> verdict option" where
  "read_verdict nm response =
     (case JSON_parse (strip_fences (or_else (rtext response) ''{}'')) of
        None \<Rightarrow> None
      | Some json \<Rightarrow>
          (case (get_property json ''valid'', get_property json ''reason'') of
             (Inr v, Inr r) \<Rightarrow>
               Some \<lparr>valid = (v = Some (JBool True)),
                     reason = (case r of
                                 None \<Rightarrow> JString ''Unknown''
                               | Some x \<Rightarrow> if truthy nm x then x else JString ''Unknown'')\<rparr>
           | _ \<Rightarrow> None))"

definition validate_request :: "prompt \<Rightarrow> File \<Rightarrow> string \<Rightarrow> string list \<Rightarrow> request" where
  "validate_request p questionFile qBase64 generatedImageUrls =
     \<lparr>model = ''gemini-2.5-flash'',
      contents = [InlineData (ftype questionFile) (Some qBase64)]
                 @ map (\<lambda>url. InlineData ''image/png'' (split_comma_1 url)) generatedImageUrls
                 @ [Text p],
      config = no_config\<lparr>responseMimeType := Some ''application/json''\<rparr>\<rparr>"

definition validateSolution :: "env \<Rightarrow> File \<Rightarrow> string list \<Rightarrow> verdict io" where
  "validateSolution e questionFile generatedImageUrls calls =
     (case getAiClient e of
        Inl err \<Rightarrow> (Inl err, calls)
      | Inr ai \<Rightarrow>
          let qBase64 = fileToGenerativePart questionFile in
          case generateContent e
                 (validate_request ValidatePrompt questionFile qBase64 generatedImageUrls) calls of
            (Inl err, calls') \<Rightarrow>
              (Inr \<lparr>valid = True, reason = JString ''Validation bypassed due to system error''\<rparr>, calls')
          | (Inr response, calls') \<Rightarrow>
              (case read_verdict (num e) response of
                 None \<Rightarrow>
                   (Inr \<lparr>valid = True, reason = JString ''Validation bypassed due to system error''\<rparr>,
                    calls')
               | Some v \<Rightarrow> (Inr v, calls')))"

section \<open>The service functions that differ in the second version of the gateway service\<close>

text \<open>The second version (\<^verbatim>\<open>src/unnamed/part_002\<close>) looks for \<^verbatim>\<open>process.env\<close> before it reads it; its validator has
  another instruction text and another bypass reason. Its \<^verbatim>\<open>transcribeMathProblem\<close> has
  the same text as the first.\<close>

definition getAiClient2 :: "env \<Rightarrow> js_error + string" where
  "getAiClient2 e =
     (let envKey = (case process_env e of None \<Rightarrow> None | Some k \<Rightarrow> k);
          key = (if truthy_key (manualApiKey e) then manualApiKey e else envKey)
      in if \<not> truthy_key key
         then Inl (Error ''API Key not found. Please select a project or enter a key.'')
         else Inr (the key))"

definition transcribeMathProblem2 :: "env \<Rightarrow> File \<Rightarrow> string io" where
  "transcribeMathProblem2 e imageFile calls =
     (case getAiClient2 e of
        Inl err \<Rightarrow> (Inl err, calls)
      | Inr ai \<Rightarrow>
          let base64Data = fileToGenerativePart imageFile in
          case generateContent e
                 \<lparr>model = ''gemini-2.5-flash'',
                  contents = [InlineData (ftype imageFile) (Some base64Data), Text TranscribePrompt],
                  config = no_config\<rparr> calls of
            (Inl err, calls') \<Rightarrow> (Inl err, calls')
          | (Inr response, calls') \<Rightarrow>
              (Inr (or_else (rtext response) ''Could not read problem.''), calls'))"

definition validateSolution2 :: "env \<Rightarrow> File \<Rightarrow> string list \<Rightarrow> verdict io" where
  "validateSolution2 e questionFile generatedImageUrls calls =
     (case getAiClient2 e of
        Inl err \<Rightarrow> (Inl err, calls)
      | Inr ai \<Rightarrow>
          let qBase64 = fileToGenerativePart questionFile in
          case generateContent e
                 (validate_request ValidatePrompt2 questionFile qBase64 generatedImageUrls) calls of
            (Inl err, calls') \<Rightarrow>
              (Inr \<lparr>valid = True, reason = JString ''Validation bypassed due to technical error''\<rparr>,
               calls')
          | (Inr response, calls') \<Rightarrow>
              (case read_verdict (num e) response of
                 None \<Rightarrow>
                   (Inr \<lparr>valid = True,
                         reason = JString ''Validation bypassed due to technical error''\<rparr>, calls')
               | Some v \<Rightarrow> (Inr v, calls')))"


section \<open>The orchestrator: \<^verbatim>\<open>handleProcess\<close>\<close>

datatype ProcessingStep =
  IDLE | ANALYZING | SOLVING | GENERATING_PAGES | VALIDATING | COMPLETED | ERROR

text \<open>The progress is a JavaScript number. The only one computed is
  \<^verbatim>\<open>40 + ((i / totalSteps) * 40)\<close>: a division, a multiplication and an addition, each
  rounded.\<close>

definition js_progress :: "nat \<Rightarrow> nat \<Rightarrow> rat" where
  "js_progress i totalSteps = double (40 + double (double (of_nat i / of_nat totalSteps) * 40))"

record ProcessingState =
  step :: ProcessingStep
  message :: string
  progress :: rat

record GeneratedPage =
  imageUrl :: string
  pageNumber :: nat

text \<open>The field \<^verbatim>\<open>file\<close> of an uploaded file is \<open>ufile\<close> here.\<close>

record UploadedFile =
  ufile :: File
  previewUrl :: string

text \<open>The component state the function writes, with every value given to
  \<^verbatim>\<open>setProcessingState\<close> kept in order in \<open>shown\<close>, and the requests sent so far.\<close>

record app =
  isKeySelected :: bool
  processingState :: ProcessingState
  generatedPages :: "GeneratedPage list"
  shown :: "ProcessingState list"
  calls :: "request list"

definition setProcessingState :: "ProcessingState \<Rightarrow> app \<Rightarrow> app" where
  "setProcessingState s st = st\<lparr>processingState := s, shown := shown st @ [s]\<rparr>"

definition MAX_ATTEMPTS :: nat where
  "MAX_ATTEMPTS = 3"

text \<open>Step 3 of the \<^verbatim>\<open>try\<close> block, the \<^verbatim>\<open>for\<close> loop over the solution steps. An error
  thrown by \<^verbatim>\<open>generateHandwrittenPage\<close> leaves the loop.\<close>

function page_loop ::
  "env \<Rightarrow> File \<Rightarrow> json list \<Rightarrow> nat \<Rightarrow> GeneratedPage list \<Rightarrow> app
     \<Rightarrow> (js_error + GeneratedPage list) \<times> app" where
  "page_loop e handwriting solutionSteps i currentPages st =
     (let totalSteps = length solutionSteps in
      if i < totalSteps
      then
        let st1 = setProcessingState
                    \<lparr>step = GENERATING_PAGES,
                     message = ''Writing page '' @ show_nat (i + 1) @ ''/'' @ show_nat totalSteps @ ''...'',
                     progress = js_progress i totalSteps\<rparr> st
        in case generateHandwrittenPage e handwriting (solutionSteps ! i) i (calls st1) of
             (Inl err, c) \<Rightarrow> (Inl err, st1\<lparr>calls := c\<rparr>)
           | (Inr url, c) \<Rightarrow>
               page_loop e handwriting solutionSteps (i + 1)
                 (currentPages @ [\<lparr>imageUrl = url, pageNumber = i + 1\<rparr>]) (st1\<lparr>calls := c\<rparr>)
      else (Inr currentPages, st))"
  by pat_completeness auto
termination
  by (relation "measure (\<lambda>(e, h, solutionSteps, i, currentPages, st). length solutionSteps - i)") auto

declare page_loop.simps [simp del]

text \<open>
  The ways control leaves the body of the \<^verbatim>\<open>try\<close>: an error is thrown; the
  \<^verbatim>\<open>continue\<close> after an empty solution; the end of the body after a rejected validation
  (with the pages of the attempt and the verdict); the end of the body after an accepted one.
\<close>

datatype outcome =
    Thrown js_error
  | Continue
  | Refused "GeneratedPage list" verdict
  | Accepted "GeneratedPage list"

text \<open>Steps 1 and 2 of the \<^verbatim>\<open>try\<close> block.\<close>

definition transcribe_and_solve ::
  "env \<Rightarrow> UploadedFile \<Rightarrow> nat \<Rightarrow> app \<Rightarrow> (js_error + json list) \<times> app" where
  "transcribe_and_solve e questionImage attempts st =
     (let st1 = setProcessingState
                  \<lparr>step = ANALYZING,
                   message = ''Reading problem (Attempt '' @ show_nat attempts @ '')...'',
                   progress = 10\<rparr> st
      in case transcribeMathProblem e (ufile questionImage) (calls st1) of
           (Inl err, c) \<Rightarrow> (Inl err, st1\<lparr>calls := c\<rparr>)
         | (Inr problemText, c) \<Rightarrow>
             let st2 = setProcessingState
                         \<lparr>step = SOLVING,
                          message = ''Solving problem step-by-step...'',
                          progress = 30\<rparr> (st1\<lparr>calls := c\<rparr>)
             in case solveMathProblem e problemText (calls st2) of
                  (Inl err, c') \<Rightarrow> (Inl err, st2\<lparr>calls := c'\<rparr>)
                | (Inr solutionSteps, c') \<Rightarrow> (Inr solutionSteps, st2\<lparr>calls := c'\<rparr>))"

text \<open>Step 4 of the \<^verbatim>\<open>try\<close> block. After a refused validation the reason is printed into
  the text of \<^verbatim>\<open>console.warn\<close> first, which throws where the reason has no string form.\<close>

definition validate_and_publish ::
  "env \<Rightarrow> UploadedFile \<Rightarrow> nat \<Rightarrow> GeneratedPage list \<Rightarrow> app \<Rightarrow> outcome \<times> app" where
  "validate_and_publish e questionImage attempts currentPages st =
     (let st1 = setProcessingState
                  \<lparr>step = VALIDATING,
                   message = ''Verifying solution quality...'',
                   progress = 90\<rparr> st
      in case validateSolution e (ufile questionImage) (map imageUrl currentPages) (calls st1) of
           (Inl err, c) \<Rightarrow> (Thrown err, st1\<lparr>calls := c\<rparr>)
         | (Inr validation, c) \<Rightarrow>
             let st2 = st1\<lparr>calls := c\<rparr> in
             if valid validation
             then (Accepted currentPages,
                   setProcessingState
                     \<lparr>step = COMPLETED,
                      message = ''Sequence Complete. Output Verified.'',
                      progress = 100\<rparr> (st2\<lparr>generatedPages := currentPages\<rparr>))
             else (case to_string (num e) (reason validation) of
                     None \<Rightarrow> (Thrown (Error ''Cannot convert object to primitive value''), st2)
                   | Some warned \<Rightarrow>
                       if attempts = MAX_ATTEMPTS
                       then (case to_string (num e)
                                    (if truthy (num e) (reason validation) then reason validation
                                     else JString ''Output illegible'') of
                               None \<Rightarrow>
                                 (Thrown (Error ''Cannot convert object to primitive value''), st2)
                             | Some text \<Rightarrow>
                                 (Thrown (Error (''Validation failed: '' @ text)), st2))
                       else (Refused currentPages validation, st2)))"

definition try_block :: "env \<Rightarrow> UploadedFile \<Rightarrow> UploadedFile \<Rightarrow> nat \<Rightarrow> app \<Rightarrow> outcome \<times> app" where
  "try_block e questionImage handwritingImage attempts st =
     (case transcribe_and_solve e questionImage attempts st of
        (Inl err, st') \<Rightarrow> (Thrown err, st')
      | (Inr solutionSteps, st') \<Rightarrow>
          if length solutionSteps = 0
          then (if attempts = MAX_ATTEMPTS
                then (Thrown (Error ''Could not solve the problem.''), st')
                else (Continue, st'))
          else (case page_loop e (ufile handwritingImage) solutionSteps 0 [] st' of
                  (Inl err, st'') \<Rightarrow> (Thrown err, st'')
                | (Inr currentPages, st'') \<Rightarrow>
                    validate_and_publish e questionImage attempts currentPages st''))"

text \<open>The test of the \<^verbatim>\<open>catch\<close> clause for a permission error.\<close>

definition access_denied :: "js_error \<Rightarrow> bool" where
  "access_denied error =
     (let errString = err_json error; errMessage = err_message error in
        str_includes errString ''403'' \<or>
        str_includes errString ''PERMISSION_DENIED'' \<or>
        str_includes errMessage ''403'' \<or>
        str_includes errMessage ''permission'')"

text \<open>What a call of \<^verbatim>\<open>handleProcess\<close> leaves: the component state and the final values of
  its locals \<^verbatim>\<open>attempts\<close> and \<^verbatim>\<open>success\<close>.\<close>

record run =
  final :: app
  attempts_used :: nat
  succeeded :: bool

function while_loop :: "env \<Rightarrow> UploadedFile \<Rightarrow> UploadedFile \<Rightarrow> nat \<Rightarrow> bool \<Rightarrow> app \<Rightarrow> run" where
  "while_loop e questionImage handwritingImage attempts success st =
     (if attempts < MAX_ATTEMPTS \<and> \<not> success
      then
        (case try_block e questionImage handwritingImage (attempts + 1) st of
           (Accepted pages, st') \<Rightarrow> while_loop e questionImage handwritingImage (attempts + 1) True st'
         | (Continue, st') \<Rightarrow> while_loop e questionImage handwritingImage (attempts + 1) success st'
         | (Refused pages v, st') \<Rightarrow> while_loop e questionImage handwritingImage (attempts + 1) success st'
         | (Thrown error, st') \<Rightarrow>
             if access_denied error
             then \<lparr>final = setProcessingState
                             \<lparr>step = ERROR, message = ''ACCESS DENIED: API Key invalid.'', progress = 0\<rparr>
                             (st'\<lparr>isKeySelected := False\<rparr>),
                   attempts_used = attempts + 1,
                   succeeded = success\<rparr>
             else while_loop e questionImage handwritingImage (attempts + 1) success
                    (if attempts + 1 = MAX_ATTEMPTS
                     then setProcessingState
                            \<lparr>step = ERROR,
                             message = ''SYSTEM FAILURE: '' @
                               (if err_message error = [] then ''Unknown error.'' else err_message error),
                             progress = 0\<rparr> st'
                     else st'))
      else \<lparr>final = st, attempts_used = attempts, succeeded = success\<rparr>)"
  by pat_completeness auto
termination
  by (relation "measure (\<lambda>(e, q, h, attempts, success, st). MAX_ATTEMPTS - attempts)") auto

declare while_loop.simps [simp del]

definition handleProcess :: "env \<Rightarrow> UploadedFile option \<Rightarrow> UploadedFile option \<Rightarrow> app \<Rightarrow> run" where
  "handleProcess e questionImage handwritingImage st =
     (case (questionImage, handwritingImage) of
        (Some q, Some h) \<Rightarrow> while_loop e q h 0 False (st\<lparr>generatedPages := []\<rparr>)
      | _ \<Rightarrow> \<lparr>final = st, attempts_used = 0, succeeded = False\<rparr>)"

text \<open>The run has stopped in the \<^verbatim>\<open>catch\<close> clause of its first attempt, at the
  \<^verbatim>\<open>return\<close> for a permission error.\<close>

definition aborted_access_denied :: "run \<Rightarrow> bool" where
  "aborted_access_denied r \<longleftrightarrow>
     attempts_used r = 1 \<and> \<not> succeeded r \<and> \<not> isKeySelected (final r) \<and>
     processingState (final r)
       = \<lparr>step = ERROR, message = ''ACCESS DENIED: API Key invalid.'', progress = 0\<rparr>"


section \<open>Concrete environments\<close>

text \<open>A gateway given by the list of outcomes of its first calls; every later call fails as
  a dropped connection does.\<close>

definition script :: "gw_result list \<Rightarrow> nat \<Rightarrow> gw_result" where
  "script rs k = (if k < length rs then rs ! k else Rejected (Error ''Failed to fetch''))"

definition text_response :: "string \<Rightarrow> gw_result" where
  "text_response t = Resolved \<lparr>rtext = Some t, parts = []\<rparr>"

definition image_response :: "string \<Rightarrow> gw_result" where
  "image_response d = Resolved \<lparr>rtext = None, parts = [\<lparr>inlineData = Some \<lparr>data = Some d\<rparr>\<rparr>]\<rparr>"

definition forbidden :: gw_result where
  "forbidden = Rejected \<lparr>err_message = ''got status: 403 Forbidden'', err_json = ''{}''\<rparr>"

definition env_with :: "gw_result list \<Rightarrow> env" where
  "env_with rs = \<lparr>manualApiKey = Some ''key'', process_env = Some None, gateway = script rs, num = id\<rparr>"

definition question :: UploadedFile where
  "question = \<lparr>ufile = \<lparr>ftype = ''image/png'', base64 = ''UQ==''\<rparr>, previewUrl = ''blob:q''\<rparr>"

definition handwriting :: UploadedFile where
  "handwriting = \<lparr>ufile = \<lparr>ftype = ''image/jpeg'', base64 = ''SA==''\<rparr>, previewUrl = ''blob:h''\<rparr>"

definition idle :: app where
  "idle = \<lparr>isKeySelected = True,
           processingState = \<lparr>step = IDLE, message = [], progress = 0\<rparr>,
           generatedPages = [], shown = [], calls = []\<rparr>"

text \<open>Scripts of gateway outcomes for whole runs.\<close>

definition happy :: "gw_result list" where
  \<open>happy = [text_response ''2+2'', text_response ''["p1","p2"]'',
            image_response ''AA'', image_response ''BB'',
            text_response ''{"valid": true, "reason": "ok"}'']\<close>

definition three_pages :: "gw_result list" where
  \<open>three_pages = [text_response ''2+2'', text_response ''["p1","p2","p3"]'',
                  image_response ''AA'', image_response ''BB'', image_response ''CC'',
                  text_response ''{"valid": true, "reason": "ok"}'']\<close>

definition four_pages :: "gw_result list" where
  "four_pages = [image_response ''AA'', image_response ''BB'', image_response ''CC'', image_response ''DD'']"

definition thrice_refused :: "gw_result list" where
  \<open>thrice_refused =
     [text_response ''2+2'', text_response ''["p1"]'', image_response ''AA'',
      text_response ''{"valid": false, "reason": "blank"}'',
      text_response ''2+2'', text_response ''["p1"]'', image_response ''BB'',
      text_response ''{"valid": false, "reason": "blank"}'',
      text_response ''2+2'', text_response ''["p1"]'', image_response ''CC'',
      text_response ''{"valid": true, "reason": "ok"}'']\<close>

definition never_solved :: "gw_result list" where
  "never_solved =
     [text_response ''2+2'', text_response ''[]'',
      text_response ''2+2'', text_response ''[]'',
      text_response ''2+2'', text_response ''[]'']"

definition validate_forbidden :: "gw_result list" where
  \<open>validate_forbidden =
     [text_response ''2+2'', text_response ''["p1"]'', image_response ''AA'', forbidden]\<close>

definition fallback_solves :: "gw_result list" where
  \<open>fallback_solves =
     [text_response ''2+2'', forbidden, text_response ''["p1"]'', image_response ''AA'',
      text_response ''{"valid": true, "reason": "ok"}'']\<close>

definition transcribe_forbidden :: "gw_result list" where
  "transcribe_forbidden = [forbidden]"

definition permission_denied :: gw_result where
  "permission_denied = Rejected \<lparr>err_message = ''permission denied'', err_json = ''{}''\<rparr>"

definition solve_denied :: "gw_result list" where
  "solve_denied = [text_response ''2+2'', permission_denied]"

definition solve_twice_forbidden :: "gw_result list" where
  "solve_twice_forbidden = [text_response ''2+2'', forbidden, forbidden]"

definition page_twice_forbidden :: "gw_result list" where
  \<open>page_twice_forbidden = [text_response ''2+2'', text_response ''["p1"]'', forbidden, forbidden]\<close>

section \<open>Facts about the runtime functions\<close>

lemmas json_defs =
  JSON_parse_def start_step_def json_space_def is_digit_def num_accepting_def
  enumeration_order_def array_index_def hex_value_def escape_char_def
  quote_string_def quote_char_def stringify_number_def
  strip_fences_def trim_def js_space_def

lemmas env_defs =
  env_with_def script_def text_response_def image_response_def forbidden_def
  question_def handwriting_def idle_def

lemmas service_defs =
  transcribeMathProblem_def solveMathProblem_def generateHandwrittenPage_def
  validateSolution_def transcribeMathProblem2_def validateSolution2_def
  getAiClient_def getAiClient2_def truthy_key_def generateContent_def
  fileToGenerativePart_def parseSolutionResponse_def extractImage_def read_verdict_def
  validate_request_def solve_primary_def solve_fallback_def page_primary_def
  page_fallback_def no_config_def isPermissionError_def Error_def

lemmas run_defs =
  handleProcess_def while_loop.simps try_block_def transcribe_and_solve_def
  validate_and_publish_def page_loop.simps setProcessingState_def MAX_ATTEMPTS_def
  access_denied_def Let_def

lemmas eval_defs =
  run_defs service_defs json_defs env_defs show_nat.simps digit_char_def
  happy_def three_pages_def four_pages_def thrice_refused_def never_solved_def validate_forbidden_def
  fallback_solves_def transcribe_forbidden_def permission_denied_def solve_denied_def
  solve_twice_forbidden_def page_twice_forbidden_def

lemma extractImage_error:
  "extractImage_parts ps = Inl err \<Longrightarrow> err = Error ''No image generated in response''"
  by (induction ps) (auto split: option.splits)

lemma no_image_not_permission:
  "\<not> isPermissionError (Error ''No image generated in response'')"
  by (simp add: isPermissionError_def Error_def)

lemma solve_cases:
  assumes "getAiClient e = Inr ai"
  shows "solveMathProblem e problemText sent =
           (case gateway e (length sent) of
              Resolved r \<Rightarrow>
                (Inr (parseSolutionResponse (num e) r), sent @ [solve_primary problemText])
            | Rejected err \<Rightarrow>
                if isPermissionError err
                then (case gateway e (Suc (length sent)) of
                        Rejected err' \<Rightarrow> Inl err'
                      | Resolved r \<Rightarrow> Inr (parseSolutionResponse (num e) r),
                      sent @ [solve_primary problemText, solve_fallback problemText])
                else (Inl err, sent @ [solve_primary problemText]))"
  using assms
  by (simp add: solveMathProblem_def generateContent_def split: gw_result.splits)

lemma page_cases:
  assumes "getAiClient e = Inr ai"
      and "cleanTextForHandwriting textToWrite = Inr cleanText"
  shows "generateHandwrittenPage e referenceImageFile textToWrite pageIndex sent =
           (case gateway e (length sent) of
              Resolved r \<Rightarrow>
                (extractImage r,
                 sent @ [page_primary referenceImageFile (base64 referenceImageFile) cleanText])
            | Rejected err \<Rightarrow>
                if isPermissionError err
                then (case gateway e (Suc (length sent)) of
                        Rejected err' \<Rightarrow> Inl err'
                      | Resolved r \<Rightarrow> extractImage r,
                      sent @ [page_primary referenceImageFile (base64 referenceImageFile) cleanText,
                              page_fallback referenceImageFile (base64 referenceImageFile) cleanText])
                else (Inl err,
                      sent @ [page_primary referenceImageFile (base64 referenceImageFile) cleanText]))"
proof -
  have no_image: "\<And>r err. extractImage r = Inl err \<Longrightarrow> \<not> isPermissionError err"
    using extractImage_error no_image_not_permission by (auto simp: extractImage_def)
  from assms no_image show ?thesis
    by (auto simp: generateHandwrittenPage_def generateContent_def fileToGenerativePart_def Let_def
          split: gw_result.splits sum.splits)
qed

lemma generateContent_sent:
  "generateContent e req c = (r, c') \<Longrightarrow> c' = c @ [req]"
  by (auto simp: generateContent_def split: gw_result.splits)

lemma transcribe_sent:
  "transcribeMathProblem e f c = (r, c') \<Longrightarrow> length c \<le> length c'"
  by (auto simp: transcribeMathProblem_def Let_def split: sum.splits prod.splits
        dest!: generateContent_sent)

lemma solve_sent:
  "solveMathProblem e t c = (r, c') \<Longrightarrow> length c \<le> length c'"
  by (auto simp: solveMathProblem_def Let_def split: sum.splits prod.splits if_splits
        dest!: generateContent_sent)

lemma validate_sent:
  "validateSolution e f urls c = (r, c') \<Longrightarrow> length c \<le> length c'"
  by (auto simp: validateSolution_def Let_def split: sum.splits prod.splits option.splits
        dest!: generateContent_sent)

lemma validate_never_gateway_error:
  "getAiClient e = Inr ai \<Longrightarrow> \<exists>v. fst (validateSolution e f urls c) = Inr v"
  by (auto simp: validateSolution_def Let_def split: sum.splits prod.splits option.splits)

lemma page_source:
  assumes "generateHandwrittenPage e f t i c = (Inr url, c')"
  shows "\<exists>k r. length c \<le> k \<and> k < length c' \<and> gateway e k = Resolved r \<and> extractImage r = Inr url"
proof -
  from assms obtain ai where ai: "getAiClient e = Inr ai"
    by (cases "getAiClient e") (auto simp: generateHandwrittenPage_def)
  from assms ai obtain ct where ct: "cleanTextForHandwriting t = Inr ct"
    by (cases "cleanTextForHandwriting t") (auto simp: generateHandwrittenPage_def Let_def)
  note eq = page_cases [OF ai ct, of f i c]
  show ?thesis
  proof (cases "gateway e (length c)")
    case (Resolved r)
    with eq assms have "extractImage r = Inr url" "length c' = Suc (length c)"
      by auto
    with Resolved show ?thesis
      by (intro exI [of _ "length c"] exI [of _ r]) simp
  next
    case (Rejected err)
    with eq assms have perm: "isPermissionError err"
      by (auto split: if_splits)
    show ?thesis
    proof (cases "gateway e (Suc (length c))")
      case (Resolved r)
      with Rejected perm eq assms have "extractImage r = Inr url" "length c' = Suc (Suc (length c))"
        by auto
      with Resolved show ?thesis
        by (intro exI [of _ "Suc (length c)"] exI [of _ r]) simp
    next
      case (Rejected err')
      with \<open>gateway e (length c) = Rejected err\<close> perm eq assms show ?thesis
        by auto
    qed
  qed
qed

lemma page_sent:
  "generateHandwrittenPage e f t i c = (r, c') \<Longrightarrow> length c \<le> length c'"
  by (auto simp: generateHandwrittenPage_def Let_def split: sum.splits prod.splits if_splits
        dest!: generateContent_sent)

lemma tas_facts:
  assumes "transcribe_and_solve e q a st = (r, st')"
  shows "generatedPages st' = generatedPages st \<and> isKeySelected st' = isKeySelected st
       \<and> length (calls st) \<le> length (calls st')
       \<and> (map progress (shown st') = map progress (shown st) @ [10]
          \<or> map progress (shown st') = map progress (shown st) @ [10, 30])
       \<and> (map step (shown st') = map step (shown st) @ [ANALYZING]
          \<or> map step (shown st') = map step (shown st) @ [ANALYZING, SOLVING])
       \<and> (\<forall>steps. r = Inr steps \<longrightarrow>
             map progress (shown st') = map progress (shown st) @ [10, 30]
           \<and> map step (shown st') = map step (shown st) @ [ANALYZING, SOLVING])"
proof -
  obtain t c where t: "transcribeMathProblem e (ufile q) (calls st) = (t, c)"
    by (cases "transcribeMathProblem e (ufile q) (calls st)")
  note tl = transcribe_sent [OF t]
  show ?thesis
  proof (cases t)
    case (Inl err)
    with t assms tl show ?thesis
      by (auto simp: transcribe_and_solve_def setProcessingState_def Let_def)
  next
    case (Inr problemText)
    obtain s c' where s: "solveMathProblem e problemText c = (s, c')"
      by (cases "solveMathProblem e problemText c")
    note sl = solve_sent [OF s]
    from Inr t s assms tl sl show ?thesis
      by (cases s) (auto simp: transcribe_and_solve_def setProcessingState_def Let_def)
  qed
qed

lemma page_loop_facts:
  "page_loop e h steps i cur st = (res, st') \<Longrightarrow> i \<le> length steps \<Longrightarrow>
     generatedPages st' = generatedPages st \<and> isKeySelected st' = isKeySelected st \<and>
     (\<exists>j. i \<le> j \<and> j \<le> length steps
        \<and> map progress (shown st') = map progress (shown st)
             @ map (\<lambda>k. js_progress k (length steps)) [i..<j]
        \<and> map step (shown st') = map step (shown st) @ replicate (j - i) GENERATING_PAGES
        \<and> (\<forall>pages. res = Inr pages \<longrightarrow>
              j = length steps
            \<and> map pageNumber pages = map pageNumber cur @ [Suc i..<Suc (length steps)]))"
proof (induction e h steps i cur st arbitrary: res st' rule: page_loop.induct)
  case (1 e h steps i cur st)
  show ?case
  proof (cases "i < length steps")
    case False
    with "1.prems" show ?thesis
      by (auto simp: page_loop.simps [of e h steps i])
  next
    case True
    define st1 where "st1 = setProcessingState
                    \<lparr>step = GENERATING_PAGES,
                     message = ''Writing page '' @ show_nat (i + 1) @ ''/'' @ show_nat (length steps) @ ''...'',
                     progress = js_progress i (length steps)\<rparr> st"
    obtain g c where g: "generateHandwrittenPage e h (steps ! i) i (calls st1) = (g, c)"
      by (cases "generateHandwrittenPage e h (steps ! i) i (calls st1)")
    have sh1: "shown st1 = shown st @ [\<lparr>step = GENERATING_PAGES,
                     message = ''Writing page '' @ show_nat (i + 1) @ ''/'' @ show_nat (length steps) @ ''...'',
                     progress = js_progress i (length steps)\<rparr>]"
      and k1: "generatedPages st1 = generatedPages st" "isKeySelected st1 = isKeySelected st"
      by (simp_all add: st1_def setProcessingState_def)
    show ?thesis
    proof (cases g)
      case (Inl err)
      with True g "1.prems" have "res = Inl err" "st' = st1\<lparr>calls := c\<rparr>"
        by (simp_all add: page_loop.simps [of e h steps i] Let_def st1_def)
      with True sh1 k1 show ?thesis
        by (intro conjI exI [of _ "Suc i"]) simp_all
    next
      case (Inr url)
      with True g "1.prems" have rec: "page_loop e h steps (i + 1)
                 (cur @ [\<lparr>imageUrl = url, pageNumber = i + 1\<rparr>]) (st1\<lparr>calls := c\<rparr>) = (res, st')"
        by (simp add: page_loop.simps [of e h steps i] Let_def st1_def)
      have "generatedPages st' = generatedPages (st1\<lparr>calls := c\<rparr>) \<and>
            isKeySelected st' = isKeySelected (st1\<lparr>calls := c\<rparr>) \<and>
     (\<exists>j. i + 1 \<le> j \<and> j \<le> length steps
        \<and> map progress (shown st') = map progress (shown (st1\<lparr>calls := c\<rparr>))
             @ map (\<lambda>k. js_progress k (length steps)) [i + 1..<j]
        \<and> map step (shown st') = map step (shown (st1\<lparr>calls := c\<rparr>)) @ replicate (j - (i + 1)) GENERATING_PAGES
        \<and> (\<forall>pages. res = Inr pages \<longrightarrow>
              j = length steps
            \<and> map pageNumber pages = map pageNumber (cur @ [\<lparr>imageUrl = url, pageNumber = i + 1\<rparr>]) @ [Suc (i + 1)..<Suc (length steps)]))"
      proof (rule "1.IH" [OF refl True st1_def _ refl rec])
        show "(Inr url, c) = generateHandwrittenPage e h (steps ! i) i (calls st1)"
          using g Inr by simp
        show "i + 1 \<le> length steps"
          using True by simp
      qed
      then obtain j where j: "i + 1 \<le> j" "j \<le> length steps"
        "map progress (shown st') = map progress (shown (st1\<lparr>calls := c\<rparr>))
             @ map (\<lambda>k. js_progress k (length steps)) [i + 1..<j]"
        "map step (shown st') = map step (shown (st1\<lparr>calls := c\<rparr>)) @ replicate (j - (i + 1)) GENERATING_PAGES"
        "\<forall>pages. res = Inr pages \<longrightarrow>
              j = length steps
            \<and> map pageNumber pages = map pageNumber (cur @ [\<lparr>imageUrl = url, pageNumber = i + 1\<rparr>]) @ [Suc (i + 1)..<Suc (length steps)]"
        and k: "generatedPages st' = generatedPages st" "isKeySelected st' = isKeySelected st"
        using k1 by auto
      have upt: "[i..<j] = i # [i + 1..<j]"
        using j(1) by (simp add: upt_conv_Cons)
      have rep: "replicate (j - i) GENERATING_PAGES = GENERATING_PAGES # replicate (j - (i + 1)) GENERATING_PAGES"
        using j(1) by (cases "j - i") auto
      have upt2: "[Suc i..<Suc (length steps)] = Suc i # [Suc (i + 1)..<Suc (length steps)]"
        using True by (simp add: upt_conv_Cons)
      show ?thesis
        using j k sh1 upt rep upt2
        by (intro conjI exI [of _ j]) simp_all
    qed
  qed
qed


lemma page_loop_source:
  "page_loop e h steps i cur st = (res, st') \<Longrightarrow>
     length (calls st) \<le> length (calls st') \<and>
     (\<forall>pages. res = Inr pages \<longrightarrow>
        (\<exists>new. pages = cur @ new \<and>
           (\<forall>p \<in> set new. \<exists>k r. length (calls st) \<le> k \<and> k < length (calls st')
                \<and> gateway e k = Resolved r \<and> extractImage r = Inr (imageUrl p))))"
proof (induction e h steps i cur st arbitrary: res st' rule: page_loop.induct)
  case (1 e h steps i cur st)
  show ?case
  proof (cases "i < length steps")
    case False
    with "1.prems" show ?thesis
      by (auto simp: page_loop.simps [of e h steps i])
  next
    case True
    define st1 where "st1 = setProcessingState
                    \<lparr>step = GENERATING_PAGES,
                     message = ''Writing page '' @ show_nat (i + 1) @ ''/'' @ show_nat (length steps) @ ''...'',
                     progress = js_progress i (length steps)\<rparr> st"
    obtain g c where g: "generateHandwrittenPage e h (steps ! i) i (calls st1) = (g, c)"
      by (cases "generateHandwrittenPage e h (steps ! i) i (calls st1)")
    have c1: "calls st1 = calls st"
      by (simp add: st1_def setProcessingState_def)
    note le = page_sent [OF g, unfolded c1]
    show ?thesis
    proof (cases g)
      case (Inl err)
      with True g "1.prems" have "res = Inl err" "st' = st1\<lparr>calls := c\<rparr>"
        by (simp_all add: page_loop.simps [of e h steps i] Let_def st1_def)
      with le show ?thesis by simp
    next
      case (Inr url)
      with True g "1.prems" have rec: "page_loop e h steps (i + 1)
                 (cur @ [\<lparr>imageUrl = url, pageNumber = i + 1\<rparr>]) (st1\<lparr>calls := c\<rparr>) = (res, st')"
        by (simp add: page_loop.simps [of e h steps i] Let_def st1_def)
      have g': "(Inr url, c) = generateHandwrittenPage e h (steps ! i) i (calls st1)"
        using g Inr by simp
      note ih = "1.IH" [OF refl True st1_def g' refl rec]
      from page_source [OF g [unfolded Inr c1]] obtain k r where
        k: "length (calls st) \<le> k" "k < length c" "gateway e k = Resolved r" "extractImage r = Inr url"
        by blast
      from ih have le2: "length c \<le> length (calls st')" by simp
      show ?thesis
      proof (intro conjI allI impI)
        show "length (calls st) \<le> length (calls st')"
          using le le2 by simp
      next
        fix pages assume "res = Inr pages"
        with ih obtain new where new: "pages = (cur @ [\<lparr>imageUrl = url, pageNumber = i + 1\<rparr>]) @ new"
          "\<forall>p \<in> set new. \<exists>k r. length c \<le> k \<and> k < length (calls st')
                \<and> gateway e k = Resolved r \<and> extractImage r = Inr (imageUrl p)"
          by auto
        have "\<forall>p \<in> set (\<lparr>imageUrl = url, pageNumber = i + 1\<rparr> # new).
                \<exists>k r. length (calls st) \<le> k \<and> k < length (calls st')
                \<and> gateway e k = Resolved r \<and> extractImage r = Inr (imageUrl p)"
        proof
          fix p assume "p \<in> set (\<lparr>imageUrl = url, pageNumber = i + 1\<rparr> # new)"
          then consider "p = \<lparr>imageUrl = url, pageNumber = i + 1\<rparr>" | "p \<in> set new" by auto
          then show "\<exists>k r. length (calls st) \<le> k \<and> k < length (calls st')
                \<and> gateway e k = Resolved r \<and> extractImage r = Inr (imageUrl p)"
          proof cases
            case 1
            with k le2 show ?thesis
              by (intro exI [of _ k] exI [of _ r]) simp
          next
            case 2
            with new(2) obtain k' r' where "length c \<le> k'" "k' < length (calls st')"
              "gateway e k' = Resolved r'" "extractImage r' = Inr (imageUrl p)" by blast
            with le show ?thesis
              by (intro exI [of _ k'] exI [of _ r']) simp
          qed
        qed
        with new(1) show "\<exists>new. pages = cur @ new \<and>
           (\<forall>p \<in> set new. \<exists>k r. length (calls st) \<le> k \<and> k < length (calls st')
                \<and> gateway e k = Resolved r \<and> extractImage r = Inr (imageUrl p))"
          by (intro exI [of _ "\<lparr>imageUrl = url, pageNumber = i + 1\<rparr> # new"]) simp
      qed
    qed
  qed
qed

lemma vap_facts:
  assumes "validate_and_publish e q a cur st = (out, st')"
  shows "isKeySelected st' = isKeySelected st \<and> length (calls st) \<le> length (calls st')
       \<and> (out = Accepted cur \<and> generatedPages st' = cur
            \<and> map progress (shown st') = map progress (shown st) @ [90, 100]
            \<and> map step (shown st') = map step (shown st) @ [VALIDATING, COMPLETED]
          \<or> ((\<exists>err. out = Thrown err) \<or> (\<exists>v. out = Refused cur v \<and> \<not> valid v \<and> a \<noteq> MAX_ATTEMPTS))
            \<and> generatedPages st' = generatedPages st
            \<and> map progress (shown st') = map progress (shown st) @ [90]
            \<and> map step (shown st') = map step (shown st) @ [VALIDATING])"
proof -
  define st1 where "st1 = setProcessingState
                  \<lparr>step = VALIDATING, message = ''Verifying solution quality...'', progress = 90\<rparr> st"
  obtain v c where v: "validateSolution e (ufile q) (map imageUrl cur) (calls st1) = (v, c)"
    by (cases "validateSolution e (ufile q) (map imageUrl cur) (calls st1)")
  have c1: "calls st1 = calls st"
    by (simp add: st1_def setProcessingState_def)
  note le = validate_sent [OF v, unfolded c1]
  from assms v le show ?thesis
    by (cases v) (auto simp: validate_and_publish_def setProcessingState_def Let_def st1_def
          split: if_splits option.splits)
qed


lemma rne_floor: "\<lfloor>x\<rfloor> \<le> rne x \<and> rne x \<le> \<lfloor>x\<rfloor> + 1"
  by (simp add: rne_def Let_def)

lemma rne_ge:
  assumes "of_int m \<le> x"
  shows "m \<le> rne x"
proof -
  from assms have "m \<le> \<lfloor>x\<rfloor>" by (simp add: le_floor_iff)
  with rne_floor [of x] show ?thesis by linarith
qed

lemma rne_le:
  assumes "x \<le> of_int m"
  shows "rne x \<le> m"
proof (cases "\<lfloor>x\<rfloor> < m")
  case True
  with rne_floor [of x] show ?thesis by linarith
next
  case False
  with assms have "x = of_int m"
    by (metis floor_less_iff not_less order_antisym)
  then show ?thesis by (simp add: rne_def)
qed

lemma rne_mono:
  assumes "x \<le> y"
  shows "rne x \<le> rne y"
proof (cases "\<lfloor>x\<rfloor> < \<lfloor>y\<rfloor>")
  case True
  with rne_floor [of x] rne_floor [of y] show ?thesis by linarith
next
  case False
  with assms have f: "\<lfloor>x\<rfloor> = \<lfloor>y\<rfloor>"
    by (meson floor_mono le_less_linear order_antisym)
  with assms have "x - of_int \<lfloor>x\<rfloor> \<le> y - of_int \<lfloor>y\<rfloor>" by simp
  with f show ?thesis
    by (auto simp: rne_def Let_def)
qed

lemma exponent_bounds:
  assumes "0 < x"
  shows "2 powi exponent x \<le> x" and "x < 2 powi (exponent x + 1)"
proof -
  obtain p q where pq: "quotient_of x = (p, q)" by (cases "quotient_of x")
  then have q: "0 < q" and x: "x = of_int p / of_int q"
    using quotient_of_denom_pos quotient_of_div by auto
  with assms have p: "0 < p"
    by (simp add: zero_less_divide_iff)
  define k where "k = bitlen p - bitlen q"
  have bounds: "(2 :: rat) powi (bitlen n - 1) \<le> of_int n \<and> (of_int n :: rat) < 2 powi bitlen n"
    if "0 < n" for n
  proof -
    from that have one: "1 \<le> bitlen n" by (auto simp: bitlen_alt_def)
    from bitlen_bounds [OF that]
    have "(of_int (2 ^ nat (bitlen n - 1)) :: rat) \<le> of_int n" "(of_int n :: rat) < of_int (2 ^ nat (bitlen n))"
      by (simp_all only: of_int_le_iff of_int_less_iff)
    with one show ?thesis
      by (simp add: power_int_nonneg_exp)
  qed
  note bp = bounds [OF p] and bq = bounds [OF q]
  have pos: "(0 :: rat) < 2 powi n" for n by simp
  have "x < 2 powi bitlen p / 2 powi (bitlen q - 1)"
    unfolding x using bp bq p pos [of "bitlen q - 1"]
    by (intro frac_less) simp_all
  also have "\<dots> = 2 powi (k + 1)"
    by (simp add: k_def power_int_diff [symmetric] algebra_simps)
  finally have up: "x < 2 powi (k + 1)" .
  have "2 powi (bitlen p - 1) / 2 powi bitlen q \<le> x"
    unfolding x using bp bq pos [of "bitlen p - 1"] p q
    by (intro frac_le) simp_all
  moreover have "(2 :: rat) powi (bitlen p - 1) / 2 powi bitlen q = 2 powi (k - 1)"
    by (simp add: k_def power_int_diff [symmetric] algebra_simps)
  ultimately have low: "2 powi (k - 1) \<le> x" by simp
  have e: "exponent x = (if 2 powi k \<le> x then k else k - 1)"
    by (simp add: exponent_def pq k_def)
  from e up low show "2 powi exponent x \<le> x" and "x < 2 powi (exponent x + 1)"
    by (auto simp: not_le)
qed

lemma exponent_mono:
  assumes "0 < x" and "x \<le> y"
  shows "exponent x \<le> exponent y"
proof (rule ccontr)
  assume "\<not> exponent x \<le> exponent y"
  then have "exponent y + 1 \<le> exponent x" by simp
  then have "(2 :: rat) powi (exponent y + 1) \<le> 2 powi exponent x"
    by (intro power_int_increasing) simp_all
  with exponent_bounds(1) [OF assms(1)] exponent_bounds(2) [of y] assms
  show False by simp
qed

lemma double_range:
  assumes "0 < x"
  shows "2 powi exponent x \<le> double x" and "double x \<le> 2 powi (exponent x + 1)"
proof -
  define u :: rat where "u = 2 powi (exponent x - 52)"
  have u: "0 < u" by (simp add: u_def)
  have d: "double x = of_int (rne (x / u)) * u"
    using assms by (simp add: double_def u_def Let_def)
  have lo: "2 powi exponent x = of_int (2 ^ 52) * u"
    by (simp add: u_def power_int_diff)
  have hi: "2 powi (exponent x + 1) = of_int (2 ^ 53) * u"
    by (simp add: u_def power_int_diff power_int_add)
  from exponent_bounds [OF assms] have "of_int (2 ^ 52) \<le> x / u" "x / u \<le> of_int (2 ^ 53)"
    using u by (simp_all add: lo hi pos_le_divide_eq pos_divide_le_eq)
  then have "2 ^ 52 \<le> rne (x / u)" "rne (x / u) \<le> 2 ^ 53"
    by (simp_all only: rne_ge rne_le)
  then have "(of_int (2 ^ 52) :: rat) \<le> of_int (rne (x / u))" "(of_int (rne (x / u)) :: rat) \<le> of_int (2 ^ 53)"
    by (simp_all only: of_int_le_iff)
  with u show "2 powi exponent x \<le> double x" and "double x \<le> 2 powi (exponent x + 1)"
    unfolding d lo hi by (simp_all add: mult_right_mono)
qed

lemma double_mono:
  assumes "0 \<le> x" and "x \<le> y"
  shows "double x \<le> double y"
proof (cases "x = 0")
  case True
  show ?thesis
  proof (cases "y = 0")
    case True
    with \<open>x = 0\<close> show ?thesis by simp
  next
    case False
    with assms True have "0 < y" by simp
    from double_range(1) [OF this] have "0 < double y"
      by (rule less_le_trans [rotated]) simp
    with True show ?thesis by (simp add: double_def)
  qed
next
  case False
  with assms have x: "0 < x" and y: "0 < y" by simp_all
  from exponent_mono [OF x assms(2)] consider "exponent x = exponent y" | "exponent x + 1 \<le> exponent y"
    by linarith
  then show ?thesis
  proof cases
    case 1
    define u :: rat where "u = 2 powi (exponent x - 52)"
    have u: "0 < u" by (simp add: u_def)
    have dx: "double x = of_int (rne (x / u)) * u"
      using x by (simp add: double_def u_def Let_def)
    have dy: "double y = of_int (rne (y / u)) * u"
      using y 1 by (simp add: double_def u_def Let_def)
    from assms(2) u have "x / u \<le> y / u" by (simp add: divide_right_mono)
    then have "rne (x / u) \<le> rne (y / u)" by (rule rne_mono)
    then have "(of_int (rne (x / u)) :: rat) \<le> of_int (rne (y / u))" by simp
    with u show ?thesis unfolding dx dy by (simp add: mult_right_mono)
  next
    case 2
    then have "(2 :: rat) powi (exponent x + 1) \<le> 2 powi exponent y"
      by (intro power_int_increasing) simp_all
    with double_range(2) [OF x] double_range(1) [OF y] show ?thesis by linarith
  qed
qed

lemma double_exact: "double 0 = 0" "double 1 = 1" "double 40 = 40" "double 80 = 80"
  by code_simp+

lemma js_progress_bounds:
  assumes "i < T"
  shows "40 \<le> js_progress i T" and "js_progress i T \<le> 80"
proof -
  define a where "a = double (of_nat i / of_nat T)"
  define b where "b = double (a * 40)"
  have "(0 :: rat) \<le> of_nat i / of_nat T" by simp
  from double_mono [OF _ this] have a0: "0 \<le> a" by (simp add: a_def double_exact)
  have "(of_nat i / of_nat T :: rat) \<le> 1" using assms by (simp add: divide_le_eq)
  from double_mono [OF _ this] have a1: "a \<le> 1" by (simp add: a_def double_exact)
  from a0 have "0 \<le> a * 40" by simp
  from double_mono [OF _ this] have b0: "0 \<le> b" by (simp add: b_def double_exact)
  from a1 have "a * 40 \<le> 40" by simp
  from double_mono [OF _ this] a0 have b1: "b \<le> 40" by (simp add: b_def double_exact)
  from b0 have "40 \<le> 40 + b" by simp
  from double_mono [OF _ this] show "40 \<le> js_progress i T"
    by (simp add: js_progress_def a_def b_def double_exact)
  from b1 have "40 + b \<le> 80" by simp
  from double_mono [OF _ this] b0 show "js_progress i T \<le> 80"
    by (simp add: js_progress_def a_def b_def double_exact)
qed

lemma js_progress_mono:
  assumes "i \<le> j"
  shows "js_progress i T \<le> js_progress j T"
proof -
  have z: "(0 :: rat) \<le> of_nat i / of_nat T" by simp
  from assms have "(of_nat i / of_nat T :: rat) \<le> of_nat j / of_nat T"
    by (simp add: divide_right_mono)
  from double_mono [OF z this]
  have a: "double (of_nat i / of_nat T) \<le> double (of_nat j / of_nat T)" .
  from double_mono [OF _ z] have a0: "0 \<le> double (of_nat i / of_nat T)"
    by (simp add: double_exact)
  from a0 have "0 \<le> double (of_nat i / of_nat T) * 40" by simp
  moreover from a have "double (of_nat i / of_nat T) * 40 \<le> double (of_nat j / of_nat T) * 40" by simp
  ultimately have b: "double (double (of_nat i / of_nat T) * 40) \<le> double (double (of_nat j / of_nat T) * 40)"
    by (rule double_mono)
  from double_mono [OF _ \<open>0 \<le> double (of_nat i / of_nat T) * 40\<close>]
  have b0: "0 \<le> double (double (of_nat i / of_nat T) * 40)"
    by (simp add: double_exact)
  from b0 have "0 \<le> 40 + double (double (of_nat i / of_nat T) * 40)" by simp
  moreover from b have "40 + double (double (of_nat i / of_nat T) * 40) \<le> 40 + double (double (of_nat j / of_nat T) * 40)"
    by simp
  ultimately show ?thesis
    unfolding js_progress_def by (rule double_mono)
qed

lemma js_progress_four:
  "js_progress 0 4 = 40" "js_progress (Suc 0) 4 = 50" "js_progress (Suc (Suc 0)) 4 = 60"
  "js_progress (Suc (Suc (Suc 0))) 4 = 70"
  by code_simp+

text \<open>For three pages the second and third value are the numbers that print as
  \<^verbatim>\<open>53.33333333333333\<close> and \<^verbatim>\<open>66.66666666666666\<close>.\<close>

lemma js_progress_three:
  "js_progress 0 3 = 40"
  "js_progress (Suc 0) 3 = 3752999689475413 / 70368744177664"
  "js_progress (Suc (Suc 0)) 3 = 2345624805922133 / 35184372088832"
  by code_simp+

lemma sandwich_sorted:
  fixes xs :: "rat list"
  assumes "sorted xs" and "\<forall>x \<in> set xs. 40 \<le> x \<and> x \<le> 80" and "rest \<in> {[], [90], [90, 100]}"
  shows "sorted ([10, 30] @ xs @ rest)"
  using assms by (auto simp: sorted_append) force+

lemma page_progress_sorted:
  "sorted (map (\<lambda>k. js_progress k T) [i..<j])"
proof -
  have "sorted_wrt (\<lambda>x y. js_progress x T \<le> js_progress y T) [i..<j]"
  proof (rule sorted_wrt_mono_rel [of _ "(<)"])
    show "sorted_wrt (<) [i..<j]" by simp
  next
    fix x y :: nat assume "x < y"
    then show "js_progress x T \<le> js_progress y T"
      by (intro js_progress_mono) simp
  qed
  then show ?thesis by (simp add: sorted_map)
qed

lemma attempt_progress_sorted:
  assumes "j \<le> T" and "rest \<in> {[], [90], [90, 100]}"
  shows "sorted ([10, 30] @ map (\<lambda>k. js_progress k T) [0..<j] @ rest)"
proof (rule sandwich_sorted [OF page_progress_sorted _ assms(2)])
  show "\<forall>x \<in> set (map (\<lambda>k. js_progress k T) [0..<j]). 40 \<le> x \<and> x \<le> 80"
  proof
    fix x assume "x \<in> set (map (\<lambda>k. js_progress k T) [0..<j])"
    then obtain k where "k < j" "x = js_progress k T" by auto
    with assms(1) js_progress_bounds [of k T] show "40 \<le> x \<and> x \<le> 80" by simp
  qed
qed

section \<open>Facts about the orchestrator\<close>

lemma try_block_facts:
  assumes "try_block e q h a st = (out, st')"
  shows "isKeySelected st' = isKeySelected st"
    and "length (calls st) \<le> length (calls st')"
    and "\<exists>ps. map progress (shown st') = map progress (shown st) @ 10 # ps \<and> sorted (10 # ps)"
    and "(\<forall>pages. out \<noteq> Accepted pages) \<Longrightarrow> generatedPages st' = generatedPages st"
    and "out = Accepted pages \<Longrightarrow>
           generatedPages st' = pages
         \<and> map progress (shown st') = map progress (shown st) @ [10, 30]
              @ map (\<lambda>k. js_progress k (length pages)) [0..<length pages] @ [90, 100]
         \<and> map pageNumber pages = [1..<Suc (length pages)]
         \<and> (\<exists>steps s s'. transcribe_and_solve e q a st = (Inr steps, s)
               \<and> page_loop e (ufile h) steps 0 [] s = (Inr pages, s')
               \<and> length pages = length steps)
         \<and> (\<forall>p \<in> set pages. \<exists>k r. length (calls st) \<le> k \<and> k < length (calls st')
               \<and> gateway e k = Resolved r \<and> extractImage r = Inr (imageUrl p))"
proof -
  obtain r1 s1 where tas: "transcribe_and_solve e q a st = (r1, s1)"
    by (cases "transcribe_and_solve e q a st")
  note f1 = tas_facts [OF tas]
  have all: "isKeySelected st' = isKeySelected st \<and> length (calls st) \<le> length (calls st')
    \<and> (\<exists>ps. map progress (shown st') = map progress (shown st) @ 10 # ps \<and> sorted (10 # ps))
    \<and> ((\<forall>pages. out \<noteq> Accepted pages) \<longrightarrow> generatedPages st' = generatedPages st)
    \<and> (\<forall>pages. out = Accepted pages \<longrightarrow>
           generatedPages st' = pages
         \<and> map progress (shown st') = map progress (shown st) @ [10, 30]
              @ map (\<lambda>k. js_progress k (length pages)) [0..<length pages] @ [90, 100]
         \<and> map pageNumber pages = [1..<Suc (length pages)]
         \<and> (\<exists>steps s s'. transcribe_and_solve e q a st = (Inr steps, s)
               \<and> page_loop e (ufile h) steps 0 [] s = (Inr pages, s')
               \<and> length pages = length steps)
         \<and> (\<forall>p \<in> set pages. \<exists>k r. length (calls st) \<le> k \<and> k < length (calls st')
               \<and> gateway e k = Resolved r \<and> extractImage r = Inr (imageUrl p)))"
    (is "?K \<and> ?L \<and> ?P \<and> ?N \<and> ?A")
  proof (cases r1)
    case (Inl err)
    with tas assms have o: "out = Thrown err" "st' = s1"
      by (simp_all add: try_block_def)
    from f1 o show ?thesis by auto
  next
    case (Inr steps)
    with f1 have p1: "map progress (shown s1) = map progress (shown st) @ [10, 30]"
      by simp
    show ?thesis
    proof (cases "steps = []")
      case True
      with Inr tas assms have o: "(\<forall>pages. out \<noteq> Accepted pages)" "st' = s1"
        by (auto simp: try_block_def split: if_splits)
      from f1 o p1 show ?thesis by auto
    next
      case False
      obtain r2 s2 where pl: "page_loop e (ufile h) steps 0 [] s1 = (r2, s2)"
        by (cases "page_loop e (ufile h) steps 0 [] s1")
      from page_loop_facts [OF pl] obtain j where j: "j \<le> length steps"
        "map progress (shown s2) = map progress (shown s1)
             @ map (\<lambda>k. js_progress k (length steps)) [0..<j]"
        "\<forall>pages. r2 = Inr pages \<longrightarrow> j = length steps
            \<and> map pageNumber pages = map pageNumber [] @ [Suc 0..<Suc (length steps)]"
        and k2: "generatedPages s2 = generatedPages s1" "isKeySelected s2 = isKeySelected s1"
        by auto
      note src = page_loop_source [OF pl]
      show ?thesis
      proof (cases r2)
        case (Inl err)
        with False Inr tas pl assms have o: "out = Thrown err" "st' = s2"
          by (simp_all add: try_block_def)
        have "sorted ([10, 30] @ map (\<lambda>k. js_progress k (length steps)) [0..<j] @ [])"
          by (rule attempt_progress_sorted [OF j(1)]) simp
        with f1 o p1 j k2 src show ?thesis by auto
      next
        case (Inr pages)
        with False \<open>r1 = Inr steps\<close> tas pl assms
        have vap: "validate_and_publish e q a pages s2 = (out, st')"
          by (simp add: try_block_def)
        note f3 = vap_facts [OF vap]
        from j(3) Inr have jT: "j = length steps" and pn: "map pageNumber pages = [Suc 0..<Suc (length steps)]"
          by auto
        from pn have len: "length pages = length steps"
          by (metis length_map length_upt diff_Suc_Suc diff_zero)
        from src Inr have prov: "\<forall>p \<in> set pages. \<exists>k r. length (calls s1) \<le> k \<and> k < length (calls s2)
                \<and> gateway e k = Resolved r \<and> extractImage r = Inr (imageUrl p)"
          by auto
        have s90: "sorted ([10, 30] @ map (\<lambda>k. js_progress k (length steps)) [0..<j] @ [90])"
          by (rule attempt_progress_sorted [OF j(1)]) simp
        have s100: "sorted ([10, 30] @ map (\<lambda>k. js_progress k (length steps)) [0..<j] @ [90, 100])"
          by (rule attempt_progress_sorted [OF j(1)]) simp
        have prov': "\<forall>p \<in> set pages. \<exists>k r. length (calls st) \<le> k \<and> k < length (calls st')
                \<and> gateway e k = Resolved r \<and> extractImage r = Inr (imageUrl p)"
        proof
          fix p assume "p \<in> set pages"
          with prov obtain k r where "length (calls s1) \<le> k" "k < length (calls s2)"
            "gateway e k = Resolved r" "extractImage r = Inr (imageUrl p)" by blast
          with f1 f3 show "\<exists>k r. length (calls st) \<le> k \<and> k < length (calls st')
                \<and> gateway e k = Resolved r \<and> extractImage r = Inr (imageUrl p)"
            by (intro exI [of _ k] exI [of _ r]) simp
        qed
        from f1 k2 f3 have K: ?K by simp
        from f1 src f3 have L: ?L by simp
        from f3 consider
          (acc) "out = Accepted pages" "generatedPages st' = pages"
            "map progress (shown st') = map progress (shown s2) @ [90, 100]"
        | (rej) "\<forall>ps. out \<noteq> Accepted ps" "generatedPages st' = generatedPages s2"
            "map progress (shown st') = map progress (shown s2) @ [90]"
          by auto
        then show ?thesis
        proof cases
          case acc
          have pr: "map progress (shown st') = map progress (shown st) @ [10, 30]
              @ map (\<lambda>k. js_progress k (length pages)) [0..<length pages] @ [90, 100]"
            using acc(3) j(2) p1 jT len by simp
          have P: ?P
          proof (intro exI conjI)
            show "map progress (shown st') = map progress (shown st) @ 10 #
                (30 # map (\<lambda>k. js_progress k (length pages)) [0..<length pages] @ [90, 100])"
              using pr by simp
            show "sorted (10 # 30 # map (\<lambda>k. js_progress k (length pages)) [0..<length pages] @ [90, 100])"
              using s100 jT len by simp
          qed
          have N: ?N using acc(1) by simp
          have ex: "\<exists>steps s s'. transcribe_and_solve e q a st = (Inr steps, s)
               \<and> page_loop e (ufile h) steps 0 [] s = (Inr pages, s')
               \<and> length pages = length steps"
            using tas \<open>r1 = Inr steps\<close> pl Inr len by blast
          have pn': "map pageNumber pages = [1..<Suc (length pages)]"
            using pn len by simp
          have A: ?A
            using acc(1,2) pr pn' ex prov' by simp
          from K L P N A show ?thesis by blast
        next
          case rej
          have P: ?P
          proof (intro exI conjI)
            show "map progress (shown st') = map progress (shown st) @ 10 #
                (30 # map (\<lambda>k. js_progress k (length steps)) [0..<j] @ [90])"
              using rej(3) j(2) p1 by simp
            show "sorted (10 # 30 # map (\<lambda>k. js_progress k (length steps)) [0..<j] @ [90])"
              using s90 by simp
          qed
          have N: ?N using rej(2) k2 f1 by simp
          have A: ?A using rej(1) by simp
          from K L P N A show ?thesis by blast
        qed
      qed
    qed
  qed
  from all show "isKeySelected st' = isKeySelected st"
    and "length (calls st) \<le> length (calls st')"
    and "\<exists>ps. map progress (shown st') = map progress (shown st) @ 10 # ps \<and> sorted (10 # ps)"
    and "(\<forall>pages. out \<noteq> Accepted pages) \<Longrightarrow> generatedPages st' = generatedPages st"
    and "out = Accepted pages \<Longrightarrow>
           generatedPages st' = pages
         \<and> map progress (shown st') = map progress (shown st) @ [10, 30]
              @ map (\<lambda>k. js_progress k (length pages)) [0..<length pages] @ [90, 100]
         \<and> map pageNumber pages = [1..<Suc (length pages)]
         \<and> (\<exists>steps s s'. transcribe_and_solve e q a st = (Inr steps, s)
               \<and> page_loop e (ufile h) steps 0 [] s = (Inr pages, s')
               \<and> length pages = length steps)
         \<and> (\<forall>p \<in> set pages. \<exists>k r. length (calls st) \<le> k \<and> k < length (calls st')
               \<and> gateway e k = Resolved r \<and> extractImage r = Inr (imageUrl p))"
    by blast+
qed




lemma while_loop_done:
  "while_loop e q h a True st = \<lparr>final = st, attempts_used = a, succeeded = True\<rparr>"
  "while_loop e q h 3 s st = \<lparr>final = st, attempts_used = 3, succeeded = s\<rparr>"
  by (simp_all add: while_loop.simps [of e q h _ _ st] MAX_ATTEMPTS_def)

lemma while_loop_first:
  "while_loop e q h 0 False st =
     (case try_block e q h 1 st of
        (Accepted pages, st') \<Rightarrow> while_loop e q h 1 True st'
      | (Continue, st') \<Rightarrow> while_loop e q h 1 False st'
      | (Refused pages v, st') \<Rightarrow> while_loop e q h 1 False st'
      | (Thrown error, st') \<Rightarrow>
          if access_denied error
          then \<lparr>final = setProcessingState
                          \<lparr>step = ERROR, message = ''ACCESS DENIED: API Key invalid.'', progress = 0\<rparr>
                          (st'\<lparr>isKeySelected := False\<rparr>),
                attempts_used = 1, succeeded = False\<rparr>
          else while_loop e q h 1 False st')"
  by (simp add: while_loop.simps [of e q h 0] MAX_ATTEMPTS_def split: prod.splits outcome.splits)

lemma while_loop_second:
  "while_loop e q h (Suc 0) False st =
     (case try_block e q h 2 st of
        (Accepted pages, st') \<Rightarrow> while_loop e q h 2 True st'
      | (Continue, st') \<Rightarrow> while_loop e q h 2 False st'
      | (Refused pages v, st') \<Rightarrow> while_loop e q h 2 False st'
      | (Thrown error, st') \<Rightarrow>
          if access_denied error
          then \<lparr>final = setProcessingState
                          \<lparr>step = ERROR, message = ''ACCESS DENIED: API Key invalid.'', progress = 0\<rparr>
                          (st'\<lparr>isKeySelected := False\<rparr>),
                attempts_used = 2, succeeded = False\<rparr>
          else while_loop e q h 2 False st')"
  by (simp add: while_loop.simps [of e q h "Suc 0"] MAX_ATTEMPTS_def numeral_2_eq_2
        split: prod.splits outcome.splits)

lemma while_loop_third:
  "while_loop e q h 2 False st =
     (case try_block e q h 3 st of
        (Accepted pages, st') \<Rightarrow> \<lparr>final = st', attempts_used = 3, succeeded = True\<rparr>
      | (Continue, st') \<Rightarrow> \<lparr>final = st', attempts_used = 3, succeeded = False\<rparr>
      | (Refused pages v, st') \<Rightarrow> \<lparr>final = st', attempts_used = 3, succeeded = False\<rparr>
      | (Thrown error, st') \<Rightarrow>
          if access_denied error
          then \<lparr>final = setProcessingState
                          \<lparr>step = ERROR, message = ''ACCESS DENIED: API Key invalid.'', progress = 0\<rparr>
                          (st'\<lparr>isKeySelected := False\<rparr>),
                attempts_used = 3, succeeded = False\<rparr>
          else \<lparr>final = setProcessingState
                          \<lparr>step = ERROR,
                           message = ''SYSTEM FAILURE: '' @
                             (if err_message error = [] then ''Unknown error.'' else err_message error),
                           progress = 0\<rparr> st',
                attempts_used = 3, succeeded = False\<rparr>)"
  by (simp add: while_loop.simps [of e q h 2] while_loop_done MAX_ATTEMPTS_def
        split: prod.splits outcome.splits)

lemmas while_loop_steps = while_loop_first while_loop_second while_loop_third while_loop_done


text \<open>What the first attempt throws when a gateway call is rejected, and what a thrown
  permission error does to the run.\<close>

lemma page_loop_error:
  "page_loop e h steps i cur st = (Inl err, st') \<Longrightarrow>
     \<exists>k c. k < length steps \<and> fst (generateHandwrittenPage e h (steps ! k) k c) = Inl err"
proof (induction e h steps i cur st rule: page_loop.induct)
  case (1 e h steps i cur st)
  show ?case
  proof (cases "i < length steps")
    case False
    with "1.prems" show ?thesis
      by (auto simp: page_loop.simps [of e h steps i])
  next
    case True
    define st1 where "st1 = setProcessingState
                    \<lparr>step = GENERATING_PAGES,
                     message = ''Writing page '' @ show_nat (i + 1) @ ''/'' @ show_nat (length steps) @ ''...'',
                     progress = js_progress i (length steps)\<rparr> st"
    obtain g c where g: "generateHandwrittenPage e h (steps ! i) i (calls st1) = (g, c)"
      by (cases "generateHandwrittenPage e h (steps ! i) i (calls st1)")
    show ?thesis
    proof (cases g)
      case (Inl err')
      with True g "1.prems" have "err' = err"
        by (simp add: page_loop.simps [of e h steps i] Let_def st1_def)
      with True g Inl show ?thesis
        by (intro exI [of _ i] exI [of _ "calls st1"]) simp
    next
      case (Inr url)
      with True g "1.prems" have rec: "page_loop e h steps (i + 1)
                 (cur @ [\<lparr>imageUrl = url, pageNumber = i + 1\<rparr>]) (st1\<lparr>calls := c\<rparr>) = (Inl err, st')"
        by (simp add: page_loop.simps [of e h steps i] Let_def st1_def)
      have g': "(Inr url, c) = generateHandwrittenPage e h (steps ! i) i (calls st1)"
        using g Inr by simp
      from "1.IH" [OF refl True st1_def g' refl rec] show ?thesis .
    qed
  qed
qed

lemma try_block_transcribe_rejected:
  assumes "getAiClient e = Inr ai" and "gateway e (length (calls st)) = Rejected err"
  shows "fst (try_block e q h a st) = Thrown err"
  using assms
  by (simp add: try_block_def transcribe_and_solve_def transcribeMathProblem_def
        generateContent_def setProcessingState_def fileToGenerativePart_def Let_def)

lemma try_block_solve_rejected:
  assumes "getAiClient e = Inr ai"
      and "gateway e (length (calls st)) = Resolved r0"
      and "gateway e (Suc (length (calls st))) = Rejected err"
      and "\<not> isPermissionError err"
  shows "fst (try_block e q h a st) = Thrown err"
    and "length (calls (snd (try_block e q h a st))) = length (calls st) + 2"
  using assms
  by (simp_all add: try_block_def transcribe_and_solve_def transcribeMathProblem_def
        solve_cases [OF assms(1)]
        generateContent_def setProcessingState_def fileToGenerativePart_def Let_def)

lemma try_block_solve_fallback_rejected:
  assumes "getAiClient e = Inr ai"
      and "gateway e (length (calls st)) = Resolved r0"
      and "gateway e (Suc (length (calls st))) = Rejected err"
      and "isPermissionError err"
      and "gateway e (Suc (Suc (length (calls st)))) = Rejected err2"
  shows "fst (try_block e q h a st) = Thrown err2"
    and "length (calls (snd (try_block e q h a st))) = length (calls st) + 3"
  using assms
  by (simp_all add: try_block_def transcribe_and_solve_def transcribeMathProblem_def
        solve_cases [OF assms(1)]
        generateContent_def setProcessingState_def fileToGenerativePart_def Let_def)

lemma try_block_page_error:
  assumes "transcribe_and_solve e q a st = (Inr steps, s)" and "steps \<noteq> []"
      and "page_loop e (ufile h) steps 0 [] s = (Inl err, s')"
  shows "try_block e q h a st = (Thrown err, s')"
  using assms by (simp add: try_block_def)

lemma first_attempt_denied:
  assumes "try_block e q h 1 (st0\<lparr>generatedPages := []\<rparr>) = (Thrown err, s1)"
      and "access_denied err"
  shows "handleProcess e (Some q) (Some h) st0
           = \<lparr>final = setProcessingState
                        \<lparr>step = ERROR, message = ''ACCESS DENIED: API Key invalid.'', progress = 0\<rparr>
                        (s1\<lparr>isKeySelected := False\<rparr>),
              attempts_used = 1, succeeded = False\<rparr>"
    and "aborted_access_denied (handleProcess e (Some q) (Some h) st0)"
    and "calls (final (handleProcess e (Some q) (Some h) st0)) = calls s1"
  using assms
  by (simp_all add: handleProcess_def while_loop_steps aborted_access_denied_def setProcessingState_def)

lemma first_attempt_denied_fst:
  assumes "fst (try_block e q h 1 (st0\<lparr>generatedPages := []\<rparr>)) = Thrown err"
      and "access_denied err"
  shows "aborted_access_denied (handleProcess e (Some q) (Some h) st0)"
    and "calls (final (handleProcess e (Some q) (Some h) st0))
           = calls (snd (try_block e q h 1 (st0\<lparr>generatedPages := []\<rparr>)))"
proof -
  let ?t = "try_block e q h 1 (st0\<lparr>generatedPages := []\<rparr>)"
  from assms(1) have t: "?t = (Thrown err, snd ?t)"
    by (metis prod.collapse)
  from first_attempt_denied(2,3) [OF t assms(2)]
  show "aborted_access_denied (handleProcess e (Some q) (Some h) st0)"
    and "calls (final (handleProcess e (Some q) (Some h) st0)) = calls (snd ?t)"
    by simp_all
qed

lemma validate_rejected_accepts:
  assumes "getAiClient e = Inr ai" and "gateway e (length sent) = Rejected err"
  shows "validateSolution e f urls sent
           = (Inr \<lparr>valid = True, reason = JString ''Validation bypassed due to system error''\<rparr>,
              sent @ [validate_request ValidatePrompt f (base64 f) urls])"
  using assms
  by (simp add: validateSolution_def generateContent_def fileToGenerativePart_def Let_def)

lemma transcribe_rejected_raises:
  assumes "getAiClient e = Inr ai" and "gateway e (length sent) = Rejected err"
  shows "transcribeMathProblem e f sent
           = (Inl err,
              sent @ [\<lparr>model = ''gemini-2.5-flash'',
                       contents = [InlineData (ftype f) (Some (base64 f)), Text TranscribePrompt],
                       config = no_config\<rparr>])"
  using assms
  by (simp add: transcribeMathProblem_def generateContent_def fileToGenerativePart_def Let_def)

section \<open>Properties of the service functions\<close>

text \<open>
  C10. When the gateway call of Transcribe resolves with a response whose text is absent or
  empty, the function returns the placeholder \<^verbatim>\<open>Could not read problem.\<close>, which is not
  empty, and throws nothing. This holds for both versions of the service; a call is made
  exactly when a credential is found.
\<close>

theorem transcribe_textless_placeholder:
  assumes "gateway e (length sent) = Resolved response"
      and "rtext response = None \<or> rtext response = Some []"
  shows "(getAiClient e = Inr ai \<longrightarrow>
            fst (transcribeMathProblem e imageFile sent) = Inr ''Could not read problem.'')
       \<and> (getAiClient2 e = Inr ai \<longrightarrow>
            fst (transcribeMathProblem2 e imageFile sent) = Inr ''Could not read problem.'')
       \<and> ''Could not read problem.'' \<noteq> []"
  using assms
  by (auto simp: transcribeMathProblem_def transcribeMathProblem2_def generateContent_def Let_def)

theorem transcribe_textless_placeholder_witness:
  "gateway (env_with [Resolved \<lparr>rtext = None, parts = []\<rparr>]) (length ([] :: request list))
     = Resolved \<lparr>rtext = None, parts = []\<rparr>
   \<and> getAiClient (env_with [Resolved \<lparr>rtext = None, parts = []\<rparr>]) = Inr ''key''
   \<and> getAiClient2 (env_with [Resolved \<lparr>rtext = None, parts = []\<rparr>]) = Inr ''key''
   \<and> fst (transcribeMathProblem (env_with [Resolved \<lparr>rtext = None, parts = []\<rparr>]) (ufile question) [])
       = Inr ''Could not read problem.''
   \<and> fst (transcribeMathProblem2 (env_with [Resolved \<lparr>rtext = None, parts = []\<rparr>]) (ufile question) [])
       = Inr ''Could not read problem.''"
proof -
  let ?e = "env_with [Resolved \<lparr>rtext = None, parts = []\<rparr>]"
  have g: "gateway ?e (length ([] :: request list)) = Resolved \<lparr>rtext = None, parts = []\<rparr>"
    by (simp add: env_defs)
  have t: "rtext \<lparr>rtext = None, parts = []\<rparr> = None \<or> rtext \<lparr>rtext = None, parts = []\<rparr> = Some []"
    by simp
  have k: "getAiClient ?e = Inr ''key''" "getAiClient2 ?e = Inr ''key''"
    by (simp_all add: env_defs getAiClient_def getAiClient2_def truthy_key_def)
  from transcribe_textless_placeholder [OF g t, of "''key''" "ufile question"] g k
  show ?thesis by simp
qed

text \<open>
  C5, as the code has it. The interpreter strips the fence markers and parses the text.
  Where parsing fails it returns the whole raw text as the only element; where the text
  parses to a value that is not an array it returns the serialisation of that value
  (\<^verbatim>\<open>JSON.stringify(result)\<close>) as the only element, which need not be the raw text; it
  never throws. On \<^verbatim>\<open>not json\<close> the result is that text alone.
\<close>

theorem parseSolutionResponse_degrades:
  "(JSON_parse (strip_fences (or_else (rtext response) ''[]'')) = None \<longrightarrow>
      (\<exists>raw. rtext response = Some raw \<and> parseSolutionResponse nm response = [JString raw]))
   \<and> (\<forall>v. JSON_parse (strip_fences (or_else (rtext response) ''[]'')) = Some v
            \<and> (\<forall>xs. v \<noteq> JArray xs) \<longrightarrow>
          parseSolutionResponse nm response = [JString (JSON_stringify nm v)])
   \<and> (\<forall>xs. JSON_parse (strip_fences (or_else (rtext response) ''[]'')) = Some (JArray xs) \<longrightarrow>
          parseSolutionResponse nm response = xs)
   \<and> parseSolutionResponse nm \<lparr>rtext = Some ''not json'', parts = ps\<rparr> = [JString ''not json'']"
proof -
  have empty: "JSON_parse (strip_fences ''[]'') = Some (JArray [])"
    by (simp add: json_defs)
  have a: "JSON_parse (strip_fences (or_else (rtext response) ''[]'')) = None \<longrightarrow>
      (\<exists>raw. rtext response = Some raw \<and> parseSolutionResponse nm response = [JString raw])"
  proof
    assume n: "JSON_parse (strip_fences (or_else (rtext response) ''[]'')) = None"
    show "\<exists>raw. rtext response = Some raw \<and> parseSolutionResponse nm response = [JString raw]"
    proof (cases "rtext response")
      case None
      with n empty show ?thesis by simp
    next
      case (Some raw)
      with n empty have "raw \<noteq> []" by auto
      with n Some show ?thesis by (simp add: parseSolutionResponse_def)
    qed
  qed
  have b: "\<forall>v. JSON_parse (strip_fences (or_else (rtext response) ''[]'')) = Some v
            \<and> (\<forall>xs. v \<noteq> JArray xs) \<longrightarrow>
          parseSolutionResponse nm response = [JString (JSON_stringify nm v)]"
    by (auto simp: parseSolutionResponse_def split: json.splits)
  have c: "\<forall>xs. JSON_parse (strip_fences (or_else (rtext response) ''[]'')) = Some (JArray xs) \<longrightarrow>
          parseSolutionResponse nm response = xs"
    by (simp add: parseSolutionResponse_def)
  have d: "parseSolutionResponse nm \<lparr>rtext = Some ''not json'', parts = ps\<rparr> = [JString ''not json'']"
    by (simp add: parseSolutionResponse_def json_defs)
  from a b c d show ?thesis by blast
qed

theorem parseSolutionResponse_degrades_witness:
  \<open>JSON_parse (strip_fences (or_else (rtext \<lparr>rtext = Some ''["a", 1'', parts = []\<rparr>) ''[]'')) = None
   \<and> parseSolutionResponse id \<lparr>rtext = Some ''["a", 1'', parts = []\<rparr> = [JString ''["a", 1'']
   \<and> JSON_parse (strip_fences (or_else (rtext \<lparr>rtext = Some ''```json["a"]```'', parts = []\<rparr>) ''[]''))
       = Some (JArray [JString ''a''])
   \<and> parseSolutionResponse id \<lparr>rtext = Some ''```json["a"]```'', parts = []\<rparr> = [JString ''a'']
   \<and> JSON_parse (strip_fences (or_else (rtext \<lparr>rtext = Some '' true'', parts = []\<rparr>) ''[]''))
       = Some (JBool True)
   \<and> parseSolutionResponse id \<lparr>rtext = Some '' true'', parts = []\<rparr> = [JString ''true'']\<close>
proof -
  have p1: \<open>JSON_parse (strip_fences (or_else (rtext \<lparr>rtext = Some ''["a", 1'', parts = []\<rparr>) ''[]'')) = None\<close>
    by (simp add: json_defs)
  have p2: \<open>JSON_parse (strip_fences (or_else (rtext \<lparr>rtext = Some ''```json["a"]```'', parts = []\<rparr>) ''[]''))
       = Some (JArray [JString ''a''])\<close>
    by (simp add: json_defs)
  have p3: \<open>JSON_parse (strip_fences (or_else (rtext \<lparr>rtext = Some '' true'', parts = []\<rparr>) ''[]''))
       = Some (JBool True)\<close>
    by (simp add: json_defs)
  note w1 = parseSolutionResponse_degrades [of \<open>\<lparr>rtext = Some ''["a", 1'', parts = []\<rparr>\<close> id]
  note w2 = parseSolutionResponse_degrades [of \<open>\<lparr>rtext = Some ''```json["a"]```'', parts = []\<rparr>\<close> id]
  note w3 = parseSolutionResponse_degrades [of \<open>\<lparr>rtext = Some '' true'', parts = []\<rparr>\<close> id]
  from w1 p1 have r1: \<open>parseSolutionResponse id \<lparr>rtext = Some ''["a", 1'', parts = []\<rparr> = [JString ''["a", 1'']\<close>
    by auto
  from w2 p2 have r2: \<open>parseSolutionResponse id \<lparr>rtext = Some ''```json["a"]```'', parts = []\<rparr> = [JString ''a'']\<close>
    by blast
  from w3 p3 have r3: \<open>parseSolutionResponse id \<lparr>rtext = Some '' true'', parts = []\<rparr> = [JString ''true'']\<close>
    by auto
  from p1 p2 p3 r1 r2 r3 show ?thesis by blast
qed

text \<open>The claim as the specification words it fails where the text parses to something that
  is not an array: the element returned is the serialised value, not the raw text.\<close>

theorem parseSolutionResponse_raw_counterexample:
  \<open>JSON_parse (strip_fences ''{"pages": ["p1"]}'') = Some (JObject [(''pages'', JArray [JString ''p1''])])
   \<and> parseSolutionResponse id \<lparr>rtext = Some ''{"pages": ["p1"]}'', parts = []\<rparr>
       = [JString ''{"pages":["p1"]}'']
   \<and> parseSolutionResponse id \<lparr>rtext = Some ''{"pages": ["p1"]}'', parts = []\<rparr>
       \<noteq> [JString ''{"pages": ["p1"]}'']\<close>
  by (simp add: parseSolutionResponse_def json_defs)


text \<open>
  C4, as the code has it. When the gateway call of Validate resolves and the text of the response,
  fences stripped, does not parse (or parses to \<^verbatim>\<open>null\<close>, which has no properties to
  read), the function throws nothing and returns a verdict with \<open>valid = True\<close>. Its reason is \<^verbatim>\<open>Validation bypassed due to system error\<close> in the first
  version of the service and \<^verbatim>\<open>Validation bypassed due to technical error\<close> in the second.
\<close>

theorem validate_unparsable_bypass:
  assumes "gateway e (length sent) = Resolved response"
      and "JSON_parse (strip_fences (or_else (rtext response) ''{}'')) = None
         \<or> JSON_parse (strip_fences (or_else (rtext response) ''{}'')) = Some JNull"
  shows "(getAiClient e = Inr ai \<longrightarrow>
            fst (validateSolution e questionFile urls sent)
              = Inr \<lparr>valid = True, reason = JString ''Validation bypassed due to system error''\<rparr>)
       \<and> (getAiClient2 e = Inr ai \<longrightarrow>
            fst (validateSolution2 e questionFile urls sent)
              = Inr \<lparr>valid = True, reason = JString ''Validation bypassed due to technical error''\<rparr>)"
proof -
  from assms(2) have "read_verdict (num e) response = None"
    by (auto simp: read_verdict_def)
  with assms(1) show ?thesis
    by (auto simp: validateSolution_def validateSolution2_def generateContent_def Let_def)
qed

theorem validate_unparsable_bypass_witness:
  "gateway (env_with [text_response ''not json'']) (length ([] :: request list))
     = Resolved \<lparr>rtext = Some ''not json'', parts = []\<rparr>
   \<and> JSON_parse (strip_fences (or_else (rtext \<lparr>rtext = Some ''not json'', parts = []\<rparr>) ''{}'')) = None
   \<and> getAiClient (env_with [text_response ''not json'']) = Inr ''key''
   \<and> getAiClient2 (env_with [text_response ''not json'']) = Inr ''key''
   \<and> fst (validateSolution (env_with [text_response ''not json'']) (ufile question) [] [])
       = Inr \<lparr>valid = True, reason = JString ''Validation bypassed due to system error''\<rparr>
   \<and> fst (validateSolution2 (env_with [text_response ''not json'']) (ufile question) [] [])
       = Inr \<lparr>valid = True, reason = JString ''Validation bypassed due to technical error''\<rparr>"
proof -
  let ?e = "env_with [text_response ''not json'']"
  have g: "gateway ?e (length ([] :: request list)) = Resolved \<lparr>rtext = Some ''not json'', parts = []\<rparr>"
    by (simp add: env_defs)
  have p: "JSON_parse (strip_fences (or_else (rtext \<lparr>rtext = Some ''not json'', parts = []\<rparr>) ''{}'')) = None"
    by (simp add: json_defs)
  have k: "getAiClient ?e = Inr ''key''" "getAiClient2 ?e = Inr ''key''"
    by (simp_all add: env_defs getAiClient_def getAiClient2_def truthy_key_def)
  from validate_unparsable_bypass [OF g disjI1 [OF p], of "''key''" "ufile question" "[]"] g p k
  show ?thesis by simp
qed

text \<open>On an unparsable response neither version gives the reason in the spelling of the
  specification, \<^verbatim>\<open>validation bypassed due to system error\<close>.\<close>

theorem validate_reason_counterexample:
  "fst (validateSolution (env_with [text_response ''not json'']) (ufile question) [] [])
     = Inr \<lparr>valid = True, reason = JString ''Validation bypassed due to system error''\<rparr>
   \<and> fst (validateSolution (env_with [text_response ''not json'']) (ufile question) [] [])
     \<noteq> Inr \<lparr>valid = True, reason = JString ''validation bypassed due to system error''\<rparr>
   \<and> fst (validateSolution2 (env_with [text_response ''not json'']) (ufile question) [] [])
     \<noteq> Inr \<lparr>valid = True, reason = JString ''validation bypassed due to system error''\<rparr>"
  by (simp add: service_defs env_defs json_defs)

text \<open>
  C2. With a credential at hand, Solve and RenderPage send the request of the primary tier
  first. If that call resolves, no other call is made. If it is rejected with an error
  that \<open>isPermissionError\<close> recognises, exactly one more call is made, the request of the
  fallback tier (thinking budget 1024 instead of 2048 for Solve; no image size for
  RenderPage), and the outcome of that call is the outcome of the stage. If it is rejected
  with any other error, that error is thrown as it is and no other call is made.
\<close>

theorem primary_then_fallback:
  assumes "getAiClient e = Inr ai"
      and "cleanTextForHandwriting textToWrite = Inr cleanText"
  shows "solveMathProblem e problemText sent =
           (case gateway e (length sent) of
              Resolved r \<Rightarrow>
                (Inr (parseSolutionResponse (num e) r), sent @ [solve_primary problemText])
            | Rejected err \<Rightarrow>
                if isPermissionError err
                then (case gateway e (Suc (length sent)) of
                        Rejected err' \<Rightarrow> Inl err'
                      | Resolved r \<Rightarrow> Inr (parseSolutionResponse (num e) r),
                      sent @ [solve_primary problemText, solve_fallback problemText])
                else (Inl err, sent @ [solve_primary problemText]))
       \<and> generateHandwrittenPage e referenceImageFile textToWrite pageIndex sent =
           (case gateway e (length sent) of
              Resolved r \<Rightarrow>
                (extractImage r,
                 sent @ [page_primary referenceImageFile (base64 referenceImageFile) cleanText])
            | Rejected err \<Rightarrow>
                if isPermissionError err
                then (case gateway e (Suc (length sent)) of
                        Rejected err' \<Rightarrow> Inl err'
                      | Resolved r \<Rightarrow> extractImage r,
                      sent @ [page_primary referenceImageFile (base64 referenceImageFile) cleanText,
                              page_fallback referenceImageFile (base64 referenceImageFile) cleanText])
                else (Inl err,
                      sent @ [page_primary referenceImageFile (base64 referenceImageFile) cleanText]))
       \<and> model (solve_primary problemText) = ''gemini-3-pro-preview''
       \<and> model (solve_fallback problemText) = ''gemini-2.5-flash''
       \<and> thinkingBudget (config (solve_primary problemText)) = Some 2048
       \<and> thinkingBudget (config (solve_fallback problemText)) = Some 1024
       \<and> model (page_primary referenceImageFile b cleanText) = ''gemini-3-pro-image-preview''
       \<and> model (page_fallback referenceImageFile b cleanText) = ''gemini-2.5-flash-image''
       \<and> imageSize (config (page_primary referenceImageFile b cleanText)) = Some ''2K''
       \<and> imageSize (config (page_fallback referenceImageFile b cleanText)) = None"
proof -
  note solve = solve_cases [OF assms(1), of problemText sent]
  note page = page_cases [OF assms, of referenceImageFile pageIndex sent]
  have params: "model (solve_primary problemText) = ''gemini-3-pro-preview''
       \<and> model (solve_fallback problemText) = ''gemini-2.5-flash''
       \<and> thinkingBudget (config (solve_primary problemText)) = Some 2048
       \<and> thinkingBudget (config (solve_fallback problemText)) = Some 1024
       \<and> model (page_primary referenceImageFile b cleanText) = ''gemini-3-pro-image-preview''
       \<and> model (page_fallback referenceImageFile b cleanText) = ''gemini-2.5-flash-image''
       \<and> imageSize (config (page_primary referenceImageFile b cleanText)) = Some ''2K''
       \<and> imageSize (config (page_fallback referenceImageFile b cleanText)) = None"
    by (simp add: solve_primary_def solve_fallback_def page_primary_def page_fallback_def no_config_def)
  from solve page params show ?thesis by blast
qed

theorem primary_then_fallback_witness:
  \<open>getAiClient (env_with [forbidden, text_response ''["p1"]'']) = Inr ''key''
   \<and> cleanTextForHandwriting (JString ''p1'') = Inr ''p1''
   \<and> solveMathProblem (env_with [forbidden, text_response ''["p1"]'']) ''2+2'' []
       = (Inr [JString ''p1''], [solve_primary ''2+2'', solve_fallback ''2+2''])
   \<and> generateHandwrittenPage (env_with [forbidden, text_response ''["p1"]'']) (ufile handwriting)
         (JString ''p1'') 0 []
       = (Inl (Error ''No image generated in response''),
          [page_primary (ufile handwriting) (base64 (ufile handwriting)) ''p1'',
           page_fallback (ufile handwriting) (base64 (ufile handwriting)) ''p1''])\<close>
proof -
  let ?e = \<open>env_with [forbidden, text_response ''["p1"]'']\<close>
  have k: "getAiClient ?e = Inr ''key''"
    by (simp add: env_defs getAiClient_def truthy_key_def)
  have c: "cleanTextForHandwriting (JString ''p1'') = Inr ''p1''"
    by (simp add: remove_headers.simps trim_def js_space_def)
  have d: "isPermissionError \<lparr>err_message = ''got status: 403 Forbidden'', err_json = ''{}''\<rparr>"
    by (simp add: isPermissionError_def)
  have s: \<open>parseSolutionResponse id \<lparr>rtext = Some ''["p1"]'', parts = []\<rparr> = [JString ''p1'']\<close>
    by (simp add: parseSolutionResponse_def json_defs)
  have x: \<open>extractImage \<lparr>rtext = Some ''["p1"]'', parts = []\<rparr> = Inl (Error ''No image generated in response'')\<close>
    by (simp add: extractImage_def)
  from primary_then_fallback [OF k c, of "''2+2''" "[]" "ufile handwriting" 0] k c
  show ?thesis
    by (simp add: env_defs d s x)
qed


section \<open>Properties of the orchestrator\<close>

text \<open>
  C8. The progress values that the body of an attempt writes, in order, never decrease, and the
  first of them, at the start of every attempt, is 10. In an attempt that is accepted they are
  10, 30, then \<^verbatim>\<open>40 + ((i / T) * 40)\<close>, as the runtime computes it, for each page index
  \<open>i\<close> of the \<open>T\<close> pages, then 90 and 100.
  (The error state of the \<^verbatim>\<open>catch\<close> clause, with progress 0, is written after the body has
  been left.)
\<close>

theorem attempt_progress_monotone:
  assumes "try_block e q h attempts st = (out, st')"
  shows "\<exists>ps. map progress (shown st') = map progress (shown st) @ 10 # ps
            \<and> sorted (10 # ps)
            \<and> (\<forall>pages. out = Accepted pages \<longrightarrow>
                 10 # ps = [10, 30]
                   @ map (\<lambda>i. js_progress i (length pages)) [0..<length pages]
                   @ [90, 100])"
proof -
  from try_block_facts(3) [OF assms] obtain ps where
    ps: "map progress (shown st') = map progress (shown st) @ 10 # ps" "sorted (10 # ps)"
    by blast
  have "\<forall>pages. out = Accepted pages \<longrightarrow>
                 10 # ps = [10, 30]
                   @ map (\<lambda>i. js_progress i (length pages)) [0..<length pages]
                   @ [90, 100]"
  proof (intro allI impI)
    fix pages assume "out = Accepted pages"
    from try_block_facts(5) [OF assms this] ps(1)
    show "10 # ps = [10, 30]
                   @ map (\<lambda>i. js_progress i (length pages)) [0..<length pages]
                   @ [90, 100]"
      by (simp del: upt_Suc map_upt_Suc)
  qed
  with ps show ?thesis by blast
qed

theorem attempt_progress_monotone_witness:
  "fst (try_block (env_with three_pages) question handwriting 1 idle)
     = Accepted [\<lparr>imageUrl = ''data:image/png;base64,AA'', pageNumber = 1\<rparr>,
                 \<lparr>imageUrl = ''data:image/png;base64,BB'', pageNumber = 2\<rparr>,
                 \<lparr>imageUrl = ''data:image/png;base64,CC'', pageNumber = 3\<rparr>]
   \<and> map progress (shown (snd (try_block (env_with three_pages) question handwriting 1 idle)))
     = [10, 30, 40, 3752999689475413 / 70368744177664, 2345624805922133 / 35184372088832, 90, 100]
   \<and> sorted [10, 30, 40, 3752999689475413 / 70368744177664, 2345624805922133 / 35184372088832,
              90, 100 :: rat]"
proof -
  let ?t = "try_block (env_with three_pages) question handwriting 1 idle"
  let ?pages = "[\<lparr>imageUrl = ''data:image/png;base64,AA'', pageNumber = 1\<rparr>,
                 \<lparr>imageUrl = ''data:image/png;base64,BB'', pageNumber = 2\<rparr>,
                 \<lparr>imageUrl = ''data:image/png;base64,CC'', pageNumber = 3\<rparr>]"
  have ev: "fst ?t = Accepted ?pages"
    by (simp add: eval_defs)
  then have t: "?t = (Accepted ?pages, snd ?t)"
    by (metis prod.collapse)
  have len: "length ?pages = 3" by simp
  from attempt_progress_monotone [OF t] obtain ps where
    ps: "map progress (shown (snd ?t)) = map progress (shown idle) @ 10 # ps"
        "sorted (10 # ps)"
        "10 # ps = [10, 30] @ map (\<lambda>i. js_progress i (length ?pages)) [0..<length ?pages] @ [90, 100]"
    by blast
  from ps(3) have "10 # ps
      = [10, 30, 40, 3752999689475413 / 70368744177664, 2345624805922133 / 35184372088832, 90, 100]"
    unfolding len by (simp add: upt_rec js_progress_three)
  with ps(1,2) ev show ?thesis
    by (simp add: idle_def)
qed

text \<open>
  C9. When the solution has four steps, the progress values the page loop writes are, in order,
  40, 50, 60 and 70: all four when the loop runs to its end, and the first \<open>j\<close> of them when
  the rendering of page \<open>j\<close> throws.
\<close>

theorem four_pages_progress:
  assumes "length steps = 4"
      and "page_loop e h steps 0 cur st = (res, st')"
  shows "\<exists>j \<le> 4. map progress (drop (length (shown st)) (shown st')) = take j [40, 50, 60, 70]
            \<and> (\<forall>pages. res = Inr pages \<longrightarrow> j = 4)"
proof -
  from page_loop_facts [OF assms(2)] assms(1) obtain j where
    j: "j \<le> 4"
       "map progress (shown st') = map progress (shown st)
             @ map (\<lambda>k. js_progress k 4) [0..<j]"
       "\<forall>pages. res = Inr pages \<longrightarrow> j = 4"
    by auto
  from j(2) have "drop (length (shown st)) (map progress (shown st'))
      = map (\<lambda>k. js_progress k 4) [0..<j]"
    by simp
  moreover have "map (\<lambda>k. js_progress k 4) [0..<j] = take j [40, 50, 60, 70]"
  proof -
    from j(1) consider "j = 0" | "j = 1" | "j = 2" | "j = 3" | "j = 4"
      by linarith
    then show ?thesis
      by cases (simp_all add: upt_rec js_progress_four)
  qed
  ultimately have "map progress (drop (length (shown st)) (shown st')) = take j [40, 50, 60, 70]"
    by (simp add: drop_map)
  with j(1,3) show ?thesis by blast
qed

theorem four_pages_progress_witness:
  "length [JString ''a'', JString ''b'', JString ''c'', JString ''d''] = 4
   \<and> fst (page_loop (env_with four_pages) (ufile handwriting)
            [JString ''a'', JString ''b'', JString ''c'', JString ''d''] 0 [] idle)
       = Inr [\<lparr>imageUrl = ''data:image/png;base64,AA'', pageNumber = 1\<rparr>,
              \<lparr>imageUrl = ''data:image/png;base64,BB'', pageNumber = 2\<rparr>,
              \<lparr>imageUrl = ''data:image/png;base64,CC'', pageNumber = 3\<rparr>,
              \<lparr>imageUrl = ''data:image/png;base64,DD'', pageNumber = 4\<rparr>]
   \<and> map progress (drop (length (shown idle))
          (shown (snd (page_loop (env_with four_pages) (ufile handwriting)
            [JString ''a'', JString ''b'', JString ''c'', JString ''d''] 0 [] idle))))
       = [40, 50, 60, 70]"
proof -
  let ?steps = "[JString ''a'', JString ''b'', JString ''c'', JString ''d'']"
  let ?t = "page_loop (env_with four_pages) (ufile handwriting) ?steps 0 [] idle"
  let ?pages = "[\<lparr>imageUrl = ''data:image/png;base64,AA'', pageNumber = 1\<rparr>,
              \<lparr>imageUrl = ''data:image/png;base64,BB'', pageNumber = 2\<rparr>,
              \<lparr>imageUrl = ''data:image/png;base64,CC'', pageNumber = 3\<rparr>,
              \<lparr>imageUrl = ''data:image/png;base64,DD'', pageNumber = 4\<rparr>]"
  have len: "length ?steps = 4" by simp
  have ev: "fst ?t = Inr ?pages"
    by (simp add: eval_defs)
  then have t: "?t = (Inr ?pages, snd ?t)"
    by (metis prod.collapse)
  from four_pages_progress [OF len t] obtain j where
    "map progress (drop (length (shown idle)) (shown (snd ?t))) = take j [40, 50, 60, 70]" "j = 4"
    by blast
  with len ev show ?thesis
    by simp
qed





text \<open>
  C6. When Solve returns no step in each of the three attempts, the first and the second attempt
  leave the body by \<^verbatim>\<open>continue\<close>, the third throws \<^verbatim>\<open>Could not solve the problem.\<close>, and
  the run ends after three attempts, without success, in the state \<open>ERROR\<close> with the message
  \<^verbatim>\<open>SYSTEM FAILURE: Could not solve the problem.\<close>
\<close>

theorem empty_solution_exhausts_attempts:
  assumes "transcribe_and_solve e q 1 (st0\<lparr>generatedPages := []\<rparr>) = (Inr [], s1)"
      and "transcribe_and_solve e q 2 s1 = (Inr [], s2)"
      and "transcribe_and_solve e q 3 s2 = (Inr [], s3)"
  shows "try_block e q h 1 (st0\<lparr>generatedPages := []\<rparr>) = (Continue, s1)
       \<and> try_block e q h 2 s1 = (Continue, s2)
       \<and> try_block e q h 3 s2 = (Thrown (Error ''Could not solve the problem.''), s3)
       \<and> handleProcess e (Some q) (Some h) st0
           = \<lparr>final = setProcessingState
                        \<lparr>step = ERROR,
                         message = ''SYSTEM FAILURE: Could not solve the problem.'',
                         progress = 0\<rparr> s3,
              attempts_used = 3, succeeded = False\<rparr>
       \<and> step (processingState (final (handleProcess e (Some q) (Some h) st0))) = ERROR"
proof -
  have t1: "try_block e q h 1 (st0\<lparr>generatedPages := []\<rparr>) = (Continue, s1)"
    using assms(1) by (simp add: try_block_def MAX_ATTEMPTS_def)
  have t2: "try_block e q h 2 s1 = (Continue, s2)"
    using assms(2) by (simp add: try_block_def MAX_ATTEMPTS_def)
  have t3: "try_block e q h 3 s2 = (Thrown (Error ''Could not solve the problem.''), s3)"
    using assms(3) by (simp add: try_block_def MAX_ATTEMPTS_def)
  have nd: "\<not> access_denied (Error ''Could not solve the problem.'')"
    by (simp add: access_denied_def Error_def)
  have msg: "err_message (Error ''Could not solve the problem.'') = ''Could not solve the problem.''"
    by (simp add: Error_def)
  have run: "handleProcess e (Some q) (Some h) st0
           = \<lparr>final = setProcessingState
                        \<lparr>step = ERROR,
                         message = ''SYSTEM FAILURE: Could not solve the problem.'',
                         progress = 0\<rparr> s3,
              attempts_used = 3, succeeded = False\<rparr>"
    using t1 t2 t3 nd msg
    by (simp add: handleProcess_def while_loop_steps)
  have "step (processingState (final (handleProcess e (Some q) (Some h) st0))) = ERROR"
    by (simp add: run setProcessingState_def)
  with t1 t2 t3 run show ?thesis by blast
qed

theorem empty_solution_exhausts_attempts_witness:
  "fst (transcribe_and_solve (env_with never_solved) question 1 (idle\<lparr>generatedPages := []\<rparr>)) = Inr []
   \<and> fst (transcribe_and_solve (env_with never_solved) question 2
        (snd (transcribe_and_solve (env_with never_solved) question 1 (idle\<lparr>generatedPages := []\<rparr>)))) = Inr []
   \<and> fst (transcribe_and_solve (env_with never_solved) question 3
        (snd (transcribe_and_solve (env_with never_solved) question 2
          (snd (transcribe_and_solve (env_with never_solved) question 1 (idle\<lparr>generatedPages := []\<rparr>)))))) = Inr []
   \<and> attempts_used (handleProcess (env_with never_solved) (Some question) (Some handwriting) idle) = 3
   \<and> \<not> succeeded (handleProcess (env_with never_solved) (Some question) (Some handwriting) idle)
   \<and> processingState (final (handleProcess (env_with never_solved) (Some question) (Some handwriting) idle))
       = \<lparr>step = ERROR, message = ''SYSTEM FAILURE: Could not solve the problem.'', progress = 0\<rparr>"
proof -
  let ?e = "env_with never_solved"
  let ?a1 = "transcribe_and_solve ?e question 1 (idle\<lparr>generatedPages := []\<rparr>)"
  let ?a2 = "transcribe_and_solve ?e question 2 (snd ?a1)"
  let ?a3 = "transcribe_and_solve ?e question 3 (snd ?a2)"
  have e1: "fst ?a1 = Inr []"
    by (simp add: eval_defs)
  have e2: "fst ?a2 = Inr []"
    by (simp add: eval_defs)
  have e3: "fst ?a3 = Inr []"
    by (simp add: eval_defs)
  have t1: "?a1 = (Inr [], snd ?a1)" using e1 by (metis prod.collapse)
  have t2: "?a2 = (Inr [], snd ?a2)" using e2 by (metis prod.collapse)
  have t3: "?a3 = (Inr [], snd ?a3)" using e3 by (metis prod.collapse)
  from empty_solution_exhausts_attempts [OF t1 t2 t3, of handwriting]
  have "handleProcess ?e (Some question) (Some handwriting) idle
           = \<lparr>final = setProcessingState
                        \<lparr>step = ERROR,
                         message = ''SYSTEM FAILURE: Could not solve the problem.'',
                         progress = 0\<rparr> (snd ?a3),
              attempts_used = 3, succeeded = False\<rparr>"
    by blast
  with e1 e2 e3 show ?thesis
    by (simp add: setProcessingState_def)
qed

text \<open>
  C1, as the code has it. If the body of the first attempt throws an error that the test of the
  \<^verbatim>\<open>catch\<close> clause takes for a permission error (\<^verbatim>\<open>403\<close> or \<^verbatim>\<open>PERMISSION_DENIED\<close> in its
  serialized form, \<^verbatim>\<open>403\<close> or \<^verbatim>\<open>permission\<close> in its message), the run stops at once: state
  \<open>ERROR\<close> with \<^verbatim>\<open>ACCESS DENIED: API Key invalid.\<close>, the key deselected, one attempt used, no
  second iteration. What a stage throws when its gateway call is rejected: Transcribe throws the
  rejection as it is; Solve and RenderPage throw the rejection of the primary call as it is
  unless \<^verbatim>\<open>isPermissionError\<close> recognises it, and then make the fallback call and throw its
  rejection if it is rejected too; Validate throws nothing and answers \<^verbatim>\<open>valid = true\<close> with the
  reason \<^verbatim>\<open>Validation bypassed due to system error\<close>. Hence a rejection that the
  \<^verbatim>\<open>catch\<close> clause takes for a permission error stops the run when it is thrown by Transcribe,
  by the primary call of Solve (without a fallback call when \<^verbatim>\<open>isPermissionError\<close> does not
  recognise it), by the fallback call of Solve, or by a page of the page loop.
\<close>

theorem access_denied_aborts_run:
  "(try_block e q h 1 (st0\<lparr>generatedPages := []\<rparr>) = (Thrown err, s1) \<and> access_denied err \<longrightarrow>
      handleProcess e (Some q) (Some h) st0
        = \<lparr>final = setProcessingState
                     \<lparr>step = ERROR, message = ''ACCESS DENIED: API Key invalid.'', progress = 0\<rparr>
                     (s1\<lparr>isKeySelected := False\<rparr>),
           attempts_used = 1, succeeded = False\<rparr>
    \<and> aborted_access_denied (handleProcess e (Some q) (Some h) st0))
   \<and> (getAiClient e = Inr ai \<and> gateway e (length sent) = Rejected err \<longrightarrow>
        transcribeMathProblem e imageFile sent
          = (Inl err,
             sent @ [\<lparr>model = ''gemini-2.5-flash'',
                      contents = [InlineData (ftype imageFile) (Some (base64 imageFile)),
                                  Text TranscribePrompt],
                      config = no_config\<rparr>])
      \<and> solveMathProblem e problemText sent
          = (if isPermissionError err
             then (case gateway e (Suc (length sent)) of
                     Rejected err' \<Rightarrow> Inl err'
                   | Resolved r \<Rightarrow> Inr (parseSolutionResponse (num e) r),
                   sent @ [solve_primary problemText, solve_fallback problemText])
             else (Inl err, sent @ [solve_primary problemText]))
      \<and> (cleanTextForHandwriting textToWrite = Inr cleanText \<longrightarrow>
            generateHandwrittenPage e referenceImageFile textToWrite pageIndex sent
              = (if isPermissionError err
                 then (case gateway e (Suc (length sent)) of
                         Rejected err' \<Rightarrow> Inl err'
                       | Resolved r \<Rightarrow> extractImage r,
                       sent @ [page_primary referenceImageFile (base64 referenceImageFile) cleanText,
                               page_fallback referenceImageFile (base64 referenceImageFile) cleanText])
                 else (Inl err,
                       sent @ [page_primary referenceImageFile (base64 referenceImageFile) cleanText])))
      \<and> validateSolution e questionFile urls sent
          = (Inr \<lparr>valid = True, reason = JString ''Validation bypassed due to system error''\<rparr>,
             sent @ [validate_request ValidatePrompt questionFile (base64 questionFile) urls]))
   \<and> (getAiClient e = Inr ai \<and> gateway e (length (calls st0)) = Rejected err \<and> access_denied err \<longrightarrow>
        aborted_access_denied (handleProcess e (Some q) (Some h) st0)
      \<and> length (calls (final (handleProcess e (Some q) (Some h) st0))) = length (calls st0) + 1)
   \<and> (getAiClient e = Inr ai \<and> gateway e (length (calls st0)) = Resolved r0
        \<and> gateway e (Suc (length (calls st0))) = Rejected err
        \<and> \<not> isPermissionError err \<and> access_denied err \<longrightarrow>
        aborted_access_denied (handleProcess e (Some q) (Some h) st0)
      \<and> length (calls (final (handleProcess e (Some q) (Some h) st0))) = length (calls st0) + 2)
   \<and> (getAiClient e = Inr ai \<and> gateway e (length (calls st0)) = Resolved r0
        \<and> gateway e (Suc (length (calls st0))) = Rejected err \<and> isPermissionError err
        \<and> gateway e (Suc (Suc (length (calls st0)))) = Rejected err2 \<and> access_denied err2 \<longrightarrow>
        aborted_access_denied (handleProcess e (Some q) (Some h) st0)
      \<and> length (calls (final (handleProcess e (Some q) (Some h) st0))) = length (calls st0) + 3)
   \<and> (transcribe_and_solve e q 1 (st0\<lparr>generatedPages := []\<rparr>) = (Inr steps, s) \<and> steps \<noteq> []
        \<and> page_loop e (ufile h) steps 0 [] s = (Inl err, s') \<and> access_denied err \<longrightarrow>
        aborted_access_denied (handleProcess e (Some q) (Some h) st0)
      \<and> (\<exists>k c. k < length steps
            \<and> fst (generateHandwrittenPage e (ufile h) (steps ! k) k c) = Inl err))
   \<and> (getAiClient e = Inr ai \<longrightarrow> (\<exists>v. fst (validateSolution e questionFile urls sent) = Inr v))"
  (is "?A \<and> ?S \<and> ?T \<and> ?P \<and> ?F \<and> ?R \<and> ?V")
proof -
  let ?st = "st0\<lparr>generatedPages := []\<rparr>"
  have n: "calls ?st = calls st0" by simp
  have A: ?A
    using first_attempt_denied(1,2) by blast
  have S: ?S
  proof (intro impI, elim conjE)
    assume k: "getAiClient e = Inr ai" and g: "gateway e (length sent) = Rejected err"
    note tr = transcribe_rejected_raises [OF k g, of imageFile]
    have so: "solveMathProblem e problemText sent
          = (if isPermissionError err
             then (case gateway e (Suc (length sent)) of
                     Rejected err' \<Rightarrow> Inl err'
                   | Resolved r \<Rightarrow> Inr (parseSolutionResponse (num e) r),
                   sent @ [solve_primary problemText, solve_fallback problemText])
             else (Inl err, sent @ [solve_primary problemText]))"
      by (simp add: solve_cases [OF k] g)
    have pa: "cleanTextForHandwriting textToWrite = Inr cleanText \<longrightarrow>
            generateHandwrittenPage e referenceImageFile textToWrite pageIndex sent
              = (if isPermissionError err
                 then (case gateway e (Suc (length sent)) of
                         Rejected err' \<Rightarrow> Inl err'
                       | Resolved r \<Rightarrow> extractImage r,
                       sent @ [page_primary referenceImageFile (base64 referenceImageFile) cleanText,
                               page_fallback referenceImageFile (base64 referenceImageFile) cleanText])
                 else (Inl err,
                       sent @ [page_primary referenceImageFile (base64 referenceImageFile) cleanText]))"
      by (simp add: page_cases [OF k] g)
    note va = validate_rejected_accepts [OF k g, of questionFile urls]
    from tr so pa va
    show "transcribeMathProblem e imageFile sent
          = (Inl err,
             sent @ [\<lparr>model = ''gemini-2.5-flash'',
                      contents = [InlineData (ftype imageFile) (Some (base64 imageFile)),
                                  Text TranscribePrompt],
                      config = no_config\<rparr>])
      \<and> solveMathProblem e problemText sent
          = (if isPermissionError err
             then (case gateway e (Suc (length sent)) of
                     Rejected err' \<Rightarrow> Inl err'
                   | Resolved r \<Rightarrow> Inr (parseSolutionResponse (num e) r),
                   sent @ [solve_primary problemText, solve_fallback problemText])
             else (Inl err, sent @ [solve_primary problemText]))
      \<and> (cleanTextForHandwriting textToWrite = Inr cleanText \<longrightarrow>
            generateHandwrittenPage e referenceImageFile textToWrite pageIndex sent
              = (if isPermissionError err
                 then (case gateway e (Suc (length sent)) of
                         Rejected err' \<Rightarrow> Inl err'
                       | Resolved r \<Rightarrow> extractImage r,
                       sent @ [page_primary referenceImageFile (base64 referenceImageFile) cleanText,
                               page_fallback referenceImageFile (base64 referenceImageFile) cleanText])
                 else (Inl err,
                       sent @ [page_primary referenceImageFile (base64 referenceImageFile) cleanText])))
      \<and> validateSolution e questionFile urls sent
          = (Inr \<lparr>valid = True, reason = JString ''Validation bypassed due to system error''\<rparr>,
             sent @ [validate_request ValidatePrompt questionFile (base64 questionFile) urls])"
      by blast
  qed
  have T: ?T
  proof (intro impI, elim conjE)
    assume k: "getAiClient e = Inr ai" and g: "gateway e (length (calls st0)) = Rejected err"
      and d: "access_denied err"
    from g have g': "gateway e (length (calls ?st)) = Rejected err" by simp
    note t = try_block_transcribe_rejected [OF k g', of q h 1]
    have "length (calls (snd (try_block e q h 1 ?st))) = length (calls st0) + 1"
      using k g
      by (simp add: try_block_def transcribe_and_solve_def transcribeMathProblem_def
            generateContent_def setProcessingState_def fileToGenerativePart_def Let_def)
    with first_attempt_denied_fst [OF t d]
    show "aborted_access_denied (handleProcess e (Some q) (Some h) st0)
      \<and> length (calls (final (handleProcess e (Some q) (Some h) st0))) = length (calls st0) + 1"
      by simp
  qed
  have P: ?P
  proof (intro impI, elim conjE)
    assume k: "getAiClient e = Inr ai" and g0: "gateway e (length (calls st0)) = Resolved r0"
      and g1: "gateway e (Suc (length (calls st0))) = Rejected err"
      and np: "\<not> isPermissionError err" and d: "access_denied err"
    from g0 g1 have g: "gateway e (length (calls ?st)) = Resolved r0"
      "gateway e (Suc (length (calls ?st))) = Rejected err" by simp_all
    note t = try_block_solve_rejected [OF k g np, of q h 1]
    with first_attempt_denied_fst [OF t(1) d]
    show "aborted_access_denied (handleProcess e (Some q) (Some h) st0)
      \<and> length (calls (final (handleProcess e (Some q) (Some h) st0))) = length (calls st0) + 2"
      by simp
  qed
  have F: ?F
  proof (intro impI, elim conjE)
    assume k: "getAiClient e = Inr ai" and g0: "gateway e (length (calls st0)) = Resolved r0"
      and g1: "gateway e (Suc (length (calls st0))) = Rejected err"
      and pe: "isPermissionError err"
      and g2: "gateway e (Suc (Suc (length (calls st0)))) = Rejected err2"
      and d: "access_denied err2"
    from g0 g1 g2 have g: "gateway e (length (calls ?st)) = Resolved r0"
      "gateway e (Suc (length (calls ?st))) = Rejected err"
      "gateway e (Suc (Suc (length (calls ?st)))) = Rejected err2" by simp_all
    note t = try_block_solve_fallback_rejected [OF k g(1,2) pe g(3), of q h 1]
    with first_attempt_denied_fst [OF t(1) d]
    show "aborted_access_denied (handleProcess e (Some q) (Some h) st0)
      \<and> length (calls (final (handleProcess e (Some q) (Some h) st0))) = length (calls st0) + 3"
      by simp
  qed
  have R: ?R
  proof (intro impI, elim conjE)
    assume tas: "transcribe_and_solve e q 1 ?st = (Inr steps, s)" and ne: "steps \<noteq> []"
      and pl: "page_loop e (ufile h) steps 0 [] s = (Inl err, s')" and d: "access_denied err"
    from first_attempt_denied(2) [OF try_block_page_error [OF tas ne pl] d] page_loop_error [OF pl]
    show "aborted_access_denied (handleProcess e (Some q) (Some h) st0)
      \<and> (\<exists>k c. k < length steps
            \<and> fst (generateHandwrittenPage e (ufile h) (steps ! k) k c) = Inl err)"
      by blast
  qed
  have V: ?V
    using validate_never_gateway_error by blast
  from A S T P F R V show ?thesis by blast
qed

theorem access_denied_aborts_run_witness:
  "getAiClient (env_with transcribe_forbidden) = Inr ''key''
   \<and> gateway (env_with transcribe_forbidden) (length (calls idle))
       = Rejected \<lparr>err_message = ''got status: 403 Forbidden'', err_json = ''{}''\<rparr>
   \<and> access_denied \<lparr>err_message = ''got status: 403 Forbidden'', err_json = ''{}''\<rparr>
   \<and> isPermissionError \<lparr>err_message = ''got status: 403 Forbidden'', err_json = ''{}''\<rparr>
   \<and> fst (try_block (env_with transcribe_forbidden) question handwriting 1 (idle\<lparr>generatedPages := []\<rparr>))
       = Thrown \<lparr>err_message = ''got status: 403 Forbidden'', err_json = ''{}''\<rparr>
   \<and> handleProcess (env_with transcribe_forbidden) (Some question) (Some handwriting) idle
       = \<lparr>final = setProcessingState
                    \<lparr>step = ERROR, message = ''ACCESS DENIED: API Key invalid.'', progress = 0\<rparr>
                    ((snd (try_block (env_with transcribe_forbidden) question handwriting 1
                             (idle\<lparr>generatedPages := []\<rparr>)))\<lparr>isKeySelected := False\<rparr>),
          attempts_used = 1, succeeded = False\<rparr>
   \<and> aborted_access_denied
        (handleProcess (env_with transcribe_forbidden) (Some question) (Some handwriting) idle)
   \<and> length (calls (final
        (handleProcess (env_with transcribe_forbidden) (Some question) (Some handwriting) idle))) = 1
   \<and> fst (transcribeMathProblem (env_with transcribe_forbidden) (ufile question) [])
       = Inl \<lparr>err_message = ''got status: 403 Forbidden'', err_json = ''{}''\<rparr>
   \<and> fst (solveMathProblem (env_with transcribe_forbidden) ''2+2'' [])
       = Inl (Error ''Failed to fetch'')
   \<and> map model (snd (solveMathProblem (env_with transcribe_forbidden) ''2+2'' []))
       = [''gemini-3-pro-preview'', ''gemini-2.5-flash'']
   \<and> cleanTextForHandwriting (JString ''p1'') = Inr ''p1''
   \<and> fst (generateHandwrittenPage (env_with transcribe_forbidden) (ufile handwriting) (JString ''p1'') 0 [])
       = Inl (Error ''Failed to fetch'')
   \<and> map model (snd (generateHandwrittenPage (env_with transcribe_forbidden) (ufile handwriting)
                        (JString ''p1'') 0 []))
       = [''gemini-3-pro-image-preview'', ''gemini-2.5-flash-image'']
   \<and> fst (validateSolution (env_with transcribe_forbidden) (ufile question) [''data:image/png;base64,AA''] [])
       = Inr \<lparr>valid = True, reason = JString ''Validation bypassed due to system error''\<rparr>
   \<and> getAiClient (env_with solve_denied) = Inr ''key''
   \<and> gateway (env_with solve_denied) (length (calls idle)) = Resolved \<lparr>rtext = Some ''2+2'', parts = []\<rparr>
   \<and> gateway (env_with solve_denied) (Suc (length (calls idle)))
       = Rejected \<lparr>err_message = ''permission denied'', err_json = ''{}''\<rparr>
   \<and> \<not> isPermissionError \<lparr>err_message = ''permission denied'', err_json = ''{}''\<rparr>
   \<and> access_denied \<lparr>err_message = ''permission denied'', err_json = ''{}''\<rparr>
   \<and> aborted_access_denied
        (handleProcess (env_with solve_denied) (Some question) (Some handwriting) idle)
   \<and> map model (calls (final
        (handleProcess (env_with solve_denied) (Some question) (Some handwriting) idle)))
       = [''gemini-2.5-flash'', ''gemini-3-pro-preview'']
   \<and> getAiClient (env_with solve_twice_forbidden) = Inr ''key''
   \<and> gateway (env_with solve_twice_forbidden) (Suc (Suc (length (calls idle))))
       = Rejected \<lparr>err_message = ''got status: 403 Forbidden'', err_json = ''{}''\<rparr>
   \<and> aborted_access_denied
        (handleProcess (env_with solve_twice_forbidden) (Some question) (Some handwriting) idle)
   \<and> map model (calls (final
        (handleProcess (env_with solve_twice_forbidden) (Some question) (Some handwriting) idle)))
       = [''gemini-2.5-flash'', ''gemini-3-pro-preview'', ''gemini-2.5-flash'']
   \<and> fst (transcribe_and_solve (env_with page_twice_forbidden) question 1 (idle\<lparr>generatedPages := []\<rparr>))
       = Inr [JString ''p1'']
   \<and> fst (page_loop (env_with page_twice_forbidden) (ufile handwriting) [JString ''p1''] 0 []
            (snd (transcribe_and_solve (env_with page_twice_forbidden) question 1
                    (idle\<lparr>generatedPages := []\<rparr>))))
       = Inl \<lparr>err_message = ''got status: 403 Forbidden'', err_json = ''{}''\<rparr>
   \<and> aborted_access_denied
        (handleProcess (env_with page_twice_forbidden) (Some question) (Some handwriting) idle)
   \<and> map model (calls (final
        (handleProcess (env_with page_twice_forbidden) (Some question) (Some handwriting) idle)))
       = [''gemini-2.5-flash'', ''gemini-3-pro-preview'', ''gemini-3-pro-image-preview'',
          ''gemini-2.5-flash-image'']"
proof -
  let ?f = "\<lparr>err_message = ''got status: 403 Forbidden'', err_json = ''{}''\<rparr>"
  let ?p = "\<lparr>err_message = ''permission denied'', err_json = ''{}''\<rparr>"
  let ?r = "\<lparr>rtext = Some ''2+2'', parts = []\<rparr>"
  let ?e1 = "env_with transcribe_forbidden"
  let ?e2 = "env_with solve_denied"
  let ?e3 = "env_with solve_twice_forbidden"
  let ?e4 = "env_with page_twice_forbidden"
  let ?urls = "[''data:image/png;base64,AA'']"
  let ?tas = "transcribe_and_solve ?e4 question 1 (idle\<lparr>generatedPages := []\<rparr>)"
  let ?pl = "page_loop ?e4 (ufile handwriting) [JString ''p1''] 0 [] (snd ?tas)"
  have df: "access_denied ?f" and dp: "access_denied ?p"
    by (simp_all add: access_denied_def)
  have pf: "isPermissionError ?f" and pp: "\<not> isPermissionError ?p"
    by (simp_all add: eval_defs)
  have k1: "getAiClient ?e1 = Inr ''key''" and k2: "getAiClient ?e2 = Inr ''key''"
    and k3: "getAiClient ?e3 = Inr ''key''"
    by (simp_all add: eval_defs)
  have g1: "gateway ?e1 (length (calls idle)) = Rejected ?f"
    and g1': "gateway ?e1 (length ([] :: request list)) = Rejected ?f"
    and g1'': "gateway ?e1 (Suc (length ([] :: request list))) = Rejected (Error ''Failed to fetch'')"
    by (simp_all add: eval_defs)
  have g2: "gateway ?e2 (length (calls idle)) = Resolved ?r"
    "gateway ?e2 (Suc (length (calls idle))) = Rejected ?p"
    by (simp_all add: eval_defs)
  have g3: "gateway ?e3 (length (calls idle)) = Resolved ?r"
    "gateway ?e3 (Suc (length (calls idle))) = Rejected ?f"
    "gateway ?e3 (Suc (Suc (length (calls idle)))) = Rejected ?f"
    by (simp_all add: eval_defs)
  have c: "cleanTextForHandwriting (JString ''p1'') = Inr ''p1''"
    by (simp add: eval_defs)
  have t4: "fst ?tas = Inr [JString ''p1'']"
    by (simp add: eval_defs)
  have p4: "fst ?pl = Inl ?f"
    by (simp add: eval_defs)
  have t4': "?tas = (Inr [JString ''p1''], snd ?tas)" using t4 by (metis prod.collapse)
  have p4': "?pl = (Inl ?f, snd ?pl)" using p4 by (metis prod.collapse)
  have ne: "[JString ''p1''] \<noteq> []" by simp
  let ?tb = "try_block ?e1 question handwriting 1 (idle\<lparr>generatedPages := []\<rparr>)"
  have b1: "fst ?tb = Thrown ?f"
    by (simp add: eval_defs)
  have b1': "?tb = (Thrown ?f, snd ?tb)" using b1 by (metis prod.collapse)
  from access_denied_aborts_run
         [where e = ?e1 and q = question and h = handwriting and ?st0.0 = idle and err = ?f
            and ?s1.0 = "snd ?tb"]
       b1' df
  have r0: "handleProcess ?e1 (Some question) (Some handwriting) idle
       = \<lparr>final = setProcessingState
                    \<lparr>step = ERROR, message = ''ACCESS DENIED: API Key invalid.'', progress = 0\<rparr>
                    ((snd ?tb)\<lparr>isKeySelected := False\<rparr>),
          attempts_used = 1, succeeded = False\<rparr>"
    by blast
  from access_denied_aborts_run
         [where e = ?e1 and q = question and h = handwriting and ?st0.0 = idle and err = ?f
            and ai = "''key''" and sent = "[]" and imageFile = "ufile question"
            and problemText = "''2+2''" and textToWrite = "JString ''p1''" and cleanText = "''p1''"
            and referenceImageFile = "ufile handwriting" and pageIndex = 0
            and questionFile = "ufile question" and urls = ?urls]
       k1 g1 g1' df pf c
  have r1: "aborted_access_denied (handleProcess ?e1 (Some question) (Some handwriting) idle)"
    "length (calls (final (handleProcess ?e1 (Some question) (Some handwriting) idle)))
       = length (calls idle) + 1"
    "transcribeMathProblem ?e1 (ufile question) []
       = (Inl ?f,
          [] @ [\<lparr>model = ''gemini-2.5-flash'',
                 contents = [InlineData (ftype (ufile question)) (Some (base64 (ufile question))),
                             Text TranscribePrompt],
                 config = no_config\<rparr>])"
    "solveMathProblem ?e1 ''2+2'' []
       = (case gateway ?e1 (Suc (length ([] :: request list))) of
            Rejected err' \<Rightarrow> Inl err'
          | Resolved r \<Rightarrow> Inr (parseSolutionResponse (num ?e1) r),
          [] @ [solve_primary ''2+2'', solve_fallback ''2+2''])"
    "generateHandwrittenPage ?e1 (ufile handwriting) (JString ''p1'') 0 []
       = (case gateway ?e1 (Suc (length ([] :: request list))) of
            Rejected err' \<Rightarrow> Inl err'
          | Resolved r \<Rightarrow> extractImage r,
          [] @ [page_primary (ufile handwriting) (base64 (ufile handwriting)) ''p1'',
                page_fallback (ufile handwriting) (base64 (ufile handwriting)) ''p1''])"
    "validateSolution ?e1 (ufile question) ?urls []
       = (Inr \<lparr>valid = True, reason = JString ''Validation bypassed due to system error''\<rparr>,
          [] @ [validate_request ValidatePrompt (ufile question) (base64 (ufile question)) ?urls])"
    by presburger+
  from access_denied_aborts_run
         [where e = ?e2 and q = question and h = handwriting and ?st0.0 = idle and err = ?p
            and ai = "''key''" and ?r0.0 = ?r]
       k2 g2 dp pp
  have r2: "aborted_access_denied (handleProcess ?e2 (Some question) (Some handwriting) idle)"
    "length (calls (final (handleProcess ?e2 (Some question) (Some handwriting) idle)))
       = length (calls idle) + 2"
    by blast+
  from access_denied_aborts_run
         [where e = ?e3 and q = question and h = handwriting and ?st0.0 = idle and err = ?f
            and ai = "''key''" and ?r0.0 = ?r and ?err2.0 = ?f]
       k3 g3 df pf
  have r3: "aborted_access_denied (handleProcess ?e3 (Some question) (Some handwriting) idle)"
    "length (calls (final (handleProcess ?e3 (Some question) (Some handwriting) idle)))
       = length (calls idle) + 3"
    by blast+
  from access_denied_aborts_run
         [where e = ?e4 and q = question and h = handwriting and ?st0.0 = idle and err = ?f
            and steps = "[JString ''p1'']" and s = "snd ?tas" and s' = "snd ?pl"]
       t4' p4' df ne
  have r4: "aborted_access_denied (handleProcess ?e4 (Some question) (Some handwriting) idle)"
    by blast
  have m1: "fst (solveMathProblem ?e1 ''2+2'' []) = Inl (Error ''Failed to fetch'')"
    "map model (snd (solveMathProblem ?e1 ''2+2'' [])) = [''gemini-3-pro-preview'', ''gemini-2.5-flash'']"
    "fst (generateHandwrittenPage ?e1 (ufile handwriting) (JString ''p1'') 0 [])
       = Inl (Error ''Failed to fetch'')"
    "map model (snd (generateHandwrittenPage ?e1 (ufile handwriting) (JString ''p1'') 0 []))
       = [''gemini-3-pro-image-preview'', ''gemini-2.5-flash-image'']"
    using r1(4,5) g1''
    by (simp_all add: solve_primary_def solve_fallback_def page_primary_def page_fallback_def)
  have m2: "map model (calls (final (handleProcess ?e2 (Some question) (Some handwriting) idle)))
       = [''gemini-2.5-flash'', ''gemini-3-pro-preview'']"
    "map model (calls (final (handleProcess ?e3 (Some question) (Some handwriting) idle)))
       = [''gemini-2.5-flash'', ''gemini-3-pro-preview'', ''gemini-2.5-flash'']"
    "map model (calls (final (handleProcess ?e4 (Some question) (Some handwriting) idle)))
       = [''gemini-2.5-flash'', ''gemini-3-pro-preview'', ''gemini-3-pro-image-preview'',
          ''gemini-2.5-flash-image'']"
    by (simp_all add: eval_defs)
  have l1: "length (calls (final (handleProcess ?e1 (Some question) (Some handwriting) idle))) = 1"
    using r1(2) by (simp add: idle_def)
  show ?thesis
    using k1 g1 df pf b1 r0 r1(1) l1 r1(3) m1 c r1(6) k2 g2 pp dp r2(1) m2(1) k3 g3(3) r3(1) m2(2) t4 p4 r4 m2(3)
    by simp
qed

text \<open>The claim as the specification words it fails for a gateway call of Validate, and for the
  primary-tier call of Solve: with the fourth call of the run, the Validate call, rejected with a
  403 error, the run completes; so it does with the primary Solve call rejected and the
  fallback call answered.\<close>

theorem validate_denied_counterexample:
  "gateway (env_with validate_forbidden) 3
     = Rejected \<lparr>err_message = ''got status: 403 Forbidden'', err_json = ''{}''\<rparr>
   \<and> access_denied \<lparr>err_message = ''got status: 403 Forbidden'', err_json = ''{}''\<rparr>
   \<and> isPermissionError \<lparr>err_message = ''got status: 403 Forbidden'', err_json = ''{}''\<rparr>
   \<and> map model (calls (final (handleProcess (env_with validate_forbidden) (Some question) (Some handwriting) idle)))
       = [''gemini-2.5-flash'', ''gemini-3-pro-preview'', ''gemini-3-pro-image-preview'', ''gemini-2.5-flash'']
   \<and> last (contents (calls (final (handleProcess (env_with validate_forbidden) (Some question) (Some handwriting) idle)) ! 3))
       = Text ValidatePrompt
   \<and> attempts_used (handleProcess (env_with validate_forbidden) (Some question) (Some handwriting) idle) = 1
   \<and> succeeded (handleProcess (env_with validate_forbidden) (Some question) (Some handwriting) idle)
   \<and> step (processingState (final (handleProcess (env_with validate_forbidden) (Some question) (Some handwriting) idle)))
       = COMPLETED
   \<and> gateway (env_with fallback_solves) 1
       = Rejected \<lparr>err_message = ''got status: 403 Forbidden'', err_json = ''{}''\<rparr>
   \<and> map model (calls (final (handleProcess (env_with fallback_solves) (Some question) (Some handwriting) idle)))
       = [''gemini-2.5-flash'', ''gemini-3-pro-preview'', ''gemini-2.5-flash'',
          ''gemini-3-pro-image-preview'', ''gemini-2.5-flash'']
   \<and> succeeded (handleProcess (env_with fallback_solves) (Some question) (Some handwriting) idle)
   \<and> step (processingState (final (handleProcess (env_with fallback_solves) (Some question) (Some handwriting) idle)))
       = COMPLETED"
  by (simp add: eval_defs)

end
